theory Spec2Isabelle
  imports Complex_Main
begin

section \<open>Python values and exceptions\<close>

text \<open>
  The values that \<open>json.loads\<close>, the search client and the chat model hand to \<open>app.py\<close>.
  A finite float is the real number it denotes; the two infinities and NaN are separate
  values, since \<open>int()\<close> treats them differently. A dict is the sequence of its bindings in
  insertion order, a later binding of a key overriding an earlier one.
\<close>

datatype pyfloat = Finite real | PosInf | NegInf | NaN

datatype pyval =
    PNone
  | PBool bool
  | PInt int
  | PFloat pyfloat
  | PStr string
  | PList "pyval list"
  | PDict "(string \<times> pyval) list"

text \<open>
  An exception is its class and the text \<open>str(e)\<close>. \<open>JSONDecodeError\<close> is a subclass of
  \<open>ValueError\<close>; \<open>OtherException\<close> stands for any further subclass of \<open>Exception\<close>
  (a network failure of the search client, for instance).
\<close>

datatype exc_class =
    ValueError | JSONDecodeError | TypeError | OverflowError
  | AttributeError | KeyError | RecursionError | OtherException

datatype py_exc = Exc exc_class string

fun exc_str :: "py_exc \<Rightarrow> string" where
  "exc_str (Exc c msg) = msg"

definition is_ValueError :: "exc_class \<Rightarrow> bool" where
  "is_ValueError c \<longleftrightarrow> c = ValueError \<or> c = JSONDecodeError"

definition bind_exc :: "py_exc + 'a \<Rightarrow> ('a \<Rightarrow> py_exc + 'b) \<Rightarrow> py_exc + 'b" where
  "bind_exc m f = (case m of Inl e \<Rightarrow> Inl e | Inr x \<Rightarrow> f x)"

section \<open>Built-in operations used by the script\<close>

fun type_name :: "pyval \<Rightarrow> string" where
  "type_name PNone = ''NoneType''"
| "type_name (PBool b) = ''bool''"
| "type_name (PInt n) = ''int''"
| "type_name (PFloat f) = ''float''"
| "type_name (PStr s) = ''str''"
| "type_name (PList xs) = ''list''"
| "type_name (PDict kvs) = ''dict''"

definition dict_lookup :: "(string \<times> pyval) list \<Rightarrow> string \<Rightarrow> pyval option" where
  "dict_lookup kvs k = map_of (rev kvs) k"

definition dict_keys :: "(string \<times> pyval) list \<Rightarrow> string list" where
  "dict_keys kvs = rev (remdups (rev (map fst kvs)))"

definition quoted :: "string \<Rightarrow> string" where
  "quoted s = [CHR 0x27] @ s @ [CHR 0x27]"

text \<open>\<open>obj.get(key, default)\<close>: only a dict has the method.\<close>

fun py_get :: "pyval \<Rightarrow> string \<Rightarrow> pyval \<Rightarrow> py_exc + pyval" where
  "py_get (PDict kvs) k d = Inr (case dict_lookup kvs k of Some v \<Rightarrow> v | None \<Rightarrow> d)"
| "py_get v k d =
     Inl (Exc AttributeError
       (quoted (type_name v) @ '' object has no attribute '' @ quoted ''get''))"

text \<open>\<open>obj[key]\<close> with a string key.\<close>

fun py_getitem :: "pyval \<Rightarrow> string \<Rightarrow> py_exc + pyval" where
  "py_getitem (PDict kvs) k =
     (case dict_lookup kvs k of Some v \<Rightarrow> Inr v | None \<Rightarrow> Inl (Exc KeyError (quoted k)))"
| "py_getitem (PList xs) k =
     Inl (Exc TypeError ''list indices must be integers or slices, not str'')"
| "py_getitem (PStr s) k =
     Inl (Exc TypeError (''string indices must be integers, not '' @ quoted ''str''))"
| "py_getitem v k =
     Inl (Exc TypeError (quoted (type_name v) @ '' object is not subscriptable''))"

text \<open>
  The elements a \<open>for\<close> loop visits: the elements of a list, the keys of a dict, the
  characters of a string; anything else is not iterable.
\<close>

fun py_iter :: "pyval \<Rightarrow> py_exc + pyval list" where
  "py_iter (PList xs) = Inr xs"
| "py_iter (PDict kvs) = Inr (map PStr (dict_keys kvs))"
| "py_iter (PStr s) = Inr (map (\<lambda>c. PStr [c]) s)"
| "py_iter v = Inl (Exc TypeError (quoted (type_name v) @ '' object is not iterable''))"

text \<open>Truth value of an object, as \<open>not x\<close> tests it.\<close>

fun py_truthy :: "pyval \<Rightarrow> bool" where
  "py_truthy PNone = False"
| "py_truthy (PBool b) = b"
| "py_truthy (PInt n) = (n \<noteq> 0)"
| "py_truthy (PFloat f) = (f \<noteq> Finite 0)"
| "py_truthy (PStr s) = (s \<noteq> [])"
| "py_truthy (PList xs) = (xs \<noteq> [])"
| "py_truthy (PDict kvs) = (kvs \<noteq> [])"

subsection \<open>Conversion to an integer\<close>

text \<open>
  \<open>int(s)\<close> on text: surrounding whitespace (space, tab, line feed, vertical tab, form
  feed, carriage return) is dropped, one sign is allowed, then decimal digits, with
  single underscores between digits. Text is ASCII here. The interpreter refuses a
  literal of more than \<open>int_max_str_digits\<close> digits with a \<open>ValueError\<close>.
\<close>

definition is_space :: "char \<Rightarrow> bool" where
  "is_space c \<longleftrightarrow> c \<in> set [CHR 0x20, CHR 0x09, CHR 0x0A, CHR 0x0B, CHR 0x0C, CHR 0x0D]"

definition strip :: "string \<Rightarrow> string" where
  "strip s = rev (dropWhile is_space (rev (dropWhile is_space s)))"

definition is_digit :: "char \<Rightarrow> bool" where
  "is_digit c \<longleftrightarrow> c \<in> set ''0123456789''"

definition digit_val :: "char \<Rightarrow> nat" where
  "digit_val c = of_char c - 48"

definition int_max_str_digits :: nat where
  "int_max_str_digits = 4300"

text \<open>The digits after the first one: \<open>acc\<close> is the value read so far.\<close>

fun more_digits :: "nat \<Rightarrow> string \<Rightarrow> nat option" where
  "more_digits acc [] = Some acc"
| "more_digits acc (c # cs) =
     (if is_digit c then more_digits (acc * 10 + digit_val c) cs
      else if c = CHR ''_'' then
        (case cs of
           [] \<Rightarrow> None
         | d # ds \<Rightarrow> if is_digit d then more_digits (acc * 10 + digit_val d) ds else None)
      else None)"

definition unsigned_literal :: "string \<Rightarrow> nat option" where
  "unsigned_literal u =
     (case u of
        [] \<Rightarrow> None
      | d # ds \<Rightarrow>
          if \<not> is_digit d then None
          else if length (filter is_digit u) > int_max_str_digits then None
          else more_digits (digit_val d) ds)"

definition str_to_int :: "string \<Rightarrow> int option" where
  "str_to_int s =
     (case strip s of
        [] \<Rightarrow> None
      | c # cs \<Rightarrow>
          if c = CHR ''-'' then map_option (\<lambda>n. - int n) (unsigned_literal cs)
          else if c = CHR ''+'' then map_option int (unsigned_literal cs)
          else map_option int (unsigned_literal (c # cs)))"

text \<open>A finite float is truncated towards zero.\<close>

definition trunc :: "real \<Rightarrow> int" where
  "trunc r = (if r < 0 then \<lceil>r\<rceil> else \<lfloor>r\<rfloor>)"

text \<open>\<open>int(x)\<close>: the integer, or the class of the exception raised.\<close>

fun py_int :: "pyval \<Rightarrow> exc_class + int" where
  "py_int PNone = Inl TypeError"
| "py_int (PBool b) = Inr (if b then 1 else 0)"
| "py_int (PInt n) = Inr n"
| "py_int (PFloat (Finite r)) = Inr (trunc r)"
| "py_int (PFloat NaN) = Inl ValueError"
| "py_int (PFloat PosInf) = Inl OverflowError"
| "py_int (PFloat NegInf) = Inl OverflowError"
| "py_int (PStr s) = (case str_to_int s of Some n \<Rightarrow> Inr n | None \<Rightarrow> Inl ValueError)"
| "py_int (PList xs) = Inl TypeError"
| "py_int (PDict kvs) = Inl TypeError"

subsection \<open>Formatting an integer, searching and slicing text\<close>

function str_nat :: "nat \<Rightarrow> string" where
  "str_nat n = (if n < 10 then [''0123456789'' ! n]
                else str_nat (n div 10) @ [''0123456789'' ! (n mod 10)])"
  by pat_completeness auto
termination
  by (relation "measure id") auto

text \<open>
  \<open>f"{i}"\<close> for an integer: its decimal digits, with the sign of a negative one. The
  interpreter refuses to format an integer of more than \<open>int_max_str_digits\<close> digits.
\<close>

definition str_int :: "int \<Rightarrow> py_exc + string" where
  "str_int i =
     (let digits = str_nat (nat \<bar>i\<bar>)
      in if length digits > int_max_str_digits
         then Inl (Exc ValueError
                ''Exceeds the limit (4300 digits) for integer string conversion; use sys.set_int_max_str_digits() to increase the limit'')
         else Inr (if i < 0 then CHR ''-'' # digits else digits))"

text \<open>\<open>s.find(c)\<close> and \<open>s.rfind(c)\<close> for a single character: an index, or \<open>-1\<close>.\<close>

fun find_from :: "char \<Rightarrow> string \<Rightarrow> int \<Rightarrow> int" where
  "find_from c [] i = -1"
| "find_from c (x # xs) i = (if x = c then i else find_from c xs (i + 1))"

definition str_find :: "string \<Rightarrow> char \<Rightarrow> int" where
  "str_find s c = find_from c s 0"

definition str_rfind :: "string \<Rightarrow> char \<Rightarrow> int" where
  "str_rfind s c = (let i = find_from c (rev s) 0 in if i = -1 then -1 else int (length s) - 1 - i)"

text \<open>\<open>s[a:b]\<close> for bounds that are not negative.\<close>

definition slice :: "string \<Rightarrow> int \<Rightarrow> int \<Rightarrow> string" where
  "slice s a b = drop (nat a) (take (nat b) s)"

section \<open>External collaborators\<close>

text \<open>
  A content fragment of a chat message. The arguments of a function call are the dict
  \<open>dict(function_call.args)\<close>. The truth test \<open>parts[0].function_call\<close> of the loop holds
  for a fragment that carries a function call (a call without a name and without
  arguments tests false; it ends the loop with the state unchanged, as the empty name,
  which is not registered, does in the model).
\<close>

datatype part =
    Text string
  | InlineData string
  | FunctionCall string "(string \<times> pyval) list"
  | FunctionResponse string string

record message =
  role :: string
  parts :: "part list"

text \<open>
  What the script calls but does not define: the JSON codec, the search client and the
  hosted model. The search client sees the queries made before (it need not answer the
  same query twice in the same way); the model answers a whole history. A response of
  the model is the content of its first candidate, which \<open>send_message\<close> has already
  inspected before it returns. A call of the model that fails (no network, a blocked
  prompt) ends the run of the script before the loop sees a response, and is not part of
  the model.
\<close>

record externals =
  json_loads :: "string \<Rightarrow> py_exc + pyval"
  json_dumps :: "pyval \<Rightarrow> string"
  tavily_search :: "pyval list \<Rightarrow> pyval \<Rightarrow> py_exc + pyval"
  generate_content :: "message list \<Rightarrow> part list"

text \<open>
  \<open>chat_session.send_message(content)\<close>: the history grows by the content sent and by the
  reply of the model.
\<close>

definition send_message :: "externals \<Rightarrow> message list \<Rightarrow> part list \<Rightarrow> part list \<times> message list" where
  "send_message ext history content =
     (let sent = \<lparr>role = ''user'', parts = content\<rparr>;
          reply = generate_content ext (history @ [sent])
      in (reply, history @ [sent, \<lparr>role = ''model'', parts = reply\<rparr>]))"

section \<open>Search tool adapter\<close>

fun map_exc :: "('a \<Rightarrow> py_exc + 'b) \<Rightarrow> 'a list \<Rightarrow> py_exc + 'b list" where
  "map_exc f [] = Inr []"
| "map_exc f (x # xs) =
     bind_exc (f x) (\<lambda>y. bind_exc (map_exc f xs) (\<lambda>ys. Inr (y # ys)))"

definition url_content :: "pyval \<Rightarrow> py_exc + pyval" where
  "url_content obj =
     bind_exc (py_getitem obj ''url'') (\<lambda>u.
     bind_exc (py_getitem obj ''content'') (\<lambda>c.
       Inr (PDict [(''url'', u), (''content'', c)])))"

text \<open>The list comprehension over \<open>results['results']\<close>.\<close>

definition url_content_list :: "pyval \<Rightarrow> py_exc + pyval" where
  "url_content_list results =
     bind_exc (py_getitem results ''results'') (\<lambda>rs.
     bind_exc (py_iter rs) (\<lambda>objs.
     bind_exc (map_exc url_content objs) (\<lambda>recs. Inr (PList recs))))"

text \<open>The body of the \<open>try\<close> block, which may raise.\<close>

definition search_try :: "externals \<Rightarrow> pyval list \<Rightarrow> pyval \<Rightarrow> py_exc + string" where
  "search_try ext seen query =
     bind_exc (tavily_search ext seen query) (\<lambda>results.
     bind_exc (url_content_list results) (\<lambda>recs. Inr (json_dumps ext recs)))"

definition perform_web_search :: "externals \<Rightarrow> pyval list \<Rightarrow> pyval \<Rightarrow> py_exc + string" where
  "perform_web_search ext seen query =
     (case search_try ext seen query of
        Inr s \<Rightarrow> Inr s
      | Inl e \<Rightarrow> Inr (''Error performing search: '' @ exc_str e))"

section \<open>Tool registry and tool-call loop\<close>

text \<open>
  The call \<open>function_to_call(**tool_args)\<close>: \<open>perform_web_search\<close> has the one parameter
  \<open>query\<close>, so any other keyword, or none, is a \<open>TypeError\<close> of the call itself. A call
  that goes through adds its query to the queries the search client has seen.
\<close>

definition call_perform_web_search ::
  "externals \<Rightarrow> pyval list \<Rightarrow> (string \<times> pyval) list \<Rightarrow> py_exc + string \<times> pyval list" where
  "call_perform_web_search ext seen tool_args =
     (case filter (\<lambda>k. k \<noteq> ''query'') (dict_keys tool_args) of
        k # ks \<Rightarrow> Inl (Exc TypeError
                  (''perform_web_search() got an unexpected keyword argument '' @ quoted k))
      | [] \<Rightarrow>
         (case dict_lookup tool_args ''query'' of
            None \<Rightarrow> Inl (Exc TypeError
                     (''perform_web_search() missing 1 required positional argument: ''
                      @ quoted ''query''))
          | Some query \<Rightarrow>
              bind_exc (perform_web_search ext seen query) (\<lambda>s. Inr (s, seen @ [query]))))"

definition available_tools ::
  "string \<rightharpoonup> (externals \<Rightarrow> pyval list \<Rightarrow> (string \<times> pyval) list \<Rightarrow> py_exc + string \<times> pyval list)" where
  "available_tools = [''perform_web_search'' \<mapsto> call_perform_web_search]"

text \<open>
  The state the loop works on: the history of the chat session and the queries sent to
  the search client so far.
\<close>

record chat_state =
  history :: "message list"
  searches :: "pyval list"

text \<open>
  The \<open>while\<close> loop of the conversation stage. \<open>None\<close> is a loop that never ends,
  \<open>Some (Inl e)\<close> an exception that leaves it, \<open>Some (Inr st)\<close> its normal end.
\<close>

partial_function (option) tool_call_loop ::
  "externals \<Rightarrow> chat_state \<Rightarrow> part list \<Rightarrow> (py_exc + chat_state) option" where
  "tool_call_loop ext st response =
     (case response of
        [] \<Rightarrow> Some (Inr st)
      | FunctionCall tool_name tool_args # rest \<Rightarrow>
          (case available_tools tool_name of
             Some function_to_call \<Rightarrow>
               (case function_to_call ext (searches st) tool_args of
                  Inl e \<Rightarrow> Some (Inl e)
                | Inr (tool_response, seen) \<Rightarrow>
                    (case send_message ext (history st)
                            [FunctionResponse tool_name tool_response] of
                       (response', history') \<Rightarrow>
                         tool_call_loop ext \<lparr>history = history', searches = seen\<rparr> response'))
           | None \<Rightarrow> Some (Inr st))
      | other # rest \<Rightarrow> Some (Inr st))"

declare tool_call_loop.simps [code]

text \<open>The handler of the chat input: the prompt is sent, then the loop runs.\<close>

definition chat_input :: "externals \<Rightarrow> chat_state \<Rightarrow> string \<Rightarrow> (py_exc + chat_state) option" where
  "chat_input ext st prompt =
     (case send_message ext (history st) [Text prompt] of
        (response, history') \<Rightarrow> tool_call_loop ext (st\<lparr>history := history'\<rparr>) response)"

section \<open>Runs of the tool-call loop\<close>

text \<open>
  One pass through the body of the loop: the state and the model turn on which the
  condition of the loop is tested next, or \<open>None\<close> when the loop ends at this turn
  (its condition fails, it reaches \<open>break\<close>, or the call of the tool raises).
\<close>

definition loop_pass :: "externals \<Rightarrow> chat_state \<Rightarrow> part list \<Rightarrow> (chat_state \<times> part list) option" where
  "loop_pass ext st response =
     (case response of
        FunctionCall tool_name tool_args # rest \<Rightarrow>
          (case available_tools tool_name of
             Some function_to_call \<Rightarrow>
               (case function_to_call ext (searches st) tool_args of
                  Inl e \<Rightarrow> None
                | Inr (tool_response, seen) \<Rightarrow>
                    (case send_message ext (history st)
                            [FunctionResponse tool_name tool_response] of
                       (response', history') \<Rightarrow>
                         Some (\<lparr>history = history', searches = seen\<rparr>, response')))
           | None \<Rightarrow> None)
      | other \<Rightarrow> None)"

text \<open>The state and the model turn after \<open>n\<close> passes, when the run has that many.\<close>

fun run_to :: "externals \<Rightarrow> nat \<Rightarrow> chat_state \<Rightarrow> part list \<Rightarrow> (chat_state \<times> part list) option" where
  "run_to ext 0 st response = Some (st, response)"
| "run_to ext (Suc n) st response =
     (case loop_pass ext st response of
        None \<Rightarrow> None
      | Some (st', response') \<Rightarrow> run_to ext n st' response')"

text \<open>
  The turns on which the body of the loop makes a pass: the first fragment calls a
  registered tool, and the arguments of the call are exactly the parameter \<open>query\<close>.
\<close>

definition dispatched :: "part list \<Rightarrow> bool" where
  "dispatched response =
     (case response of
        FunctionCall tool_name tool_args # rest \<Rightarrow>
          (case available_tools tool_name of
             Some function_to_call \<Rightarrow>
               filter (\<lambda>k. k \<noteq> ''query'') (dict_keys tool_args) = [] \<and>
               (case dict_lookup tool_args ''query'' of Some query \<Rightarrow> True | None \<Rightarrow> False)
           | None \<Rightarrow> False)
      | other \<Rightarrow> False)"

fun is_function_call :: "part \<Rightarrow> bool" where
  "is_function_call (FunctionCall name args) = True"
| "is_function_call p = False"

definition has_tool_call :: "part list \<Rightarrow> bool" where
  "has_tool_call response = list_ex is_function_call response"

text \<open>
  A tool-call/tool-result pair in a history: a message of the model that starts with a
  function call, followed by the message that carries the response to that function.
\<close>

definition is_pair :: "message \<Rightarrow> message \<Rightarrow> bool" where
  "is_pair a b =
     (case parts a of
        FunctionCall name args # rest \<Rightarrow>
          role a = ''model'' \<and> role b = ''user'' \<and>
          (case parts b of [FunctionResponse name' content] \<Rightarrow> name' = name | other \<Rightarrow> False)
      | other \<Rightarrow> False)"

fun tool_pairs :: "message list \<Rightarrow> nat" where
  "tool_pairs (a # b # ms) = (if is_pair a b then 1 else 0) + tool_pairs (b # ms)"
| "tool_pairs ms = 0"

section \<open>Result extractor\<close>

record totals =
  total_calories :: int
  total_protein :: int
  total_carbs :: int
  total_fat :: int

record display_row =
  Item :: pyval
  Calories :: string
  Protein :: string
  Carbs :: string
  Fat :: string

text \<open>
  One of the four blocks \<open>try: x = int(item.get(key)) except (ValueError, TypeError): x = 0\<close>.
  An exception of another class leaves the block.
\<close>

definition macro_field :: "pyval \<Rightarrow> string \<Rightarrow> py_exc + int" where
  "macro_field item key =
     bind_exc (py_get item key PNone) (\<lambda>v.
       case py_int v of
         Inr n \<Rightarrow> Inr n
       | Inl c \<Rightarrow>
           if is_ValueError c \<or> c = TypeError then Inr 0
           else Inl (Exc c ''cannot convert float infinity to integer''))"

text \<open>What \<open>item.get(key)\<close> gives for a dict: the value of the key, or \<open>None\<close>.\<close>

definition field_value :: "(string \<times> pyval) list \<Rightarrow> string \<Rightarrow> pyval" where
  "field_value kvs key = (case dict_lookup kvs key of Some v \<Rightarrow> v | None \<Rightarrow> PNone)"

text \<open>The body of the loop over \<open>breakdown_list\<close>, on the running totals and rows.\<close>

definition breakdown_item ::
  "pyval \<Rightarrow> totals \<times> display_row list \<Rightarrow> py_exc + totals \<times> display_row list" where
  "breakdown_item item acc =
     (case acc of (t, display_data) \<Rightarrow>
        bind_exc (macro_field item ''calories'') (\<lambda>calories.
        bind_exc (macro_field item ''protein_grams'') (\<lambda>protein.
        bind_exc (macro_field item ''carbs_grams'') (\<lambda>carbs.
        bind_exc (macro_field item ''fat_grams'') (\<lambda>fat.
        bind_exc (py_get item ''item'' (PStr ''N/A'')) (\<lambda>name.
        bind_exc (str_int calories) (\<lambda>calories_text.
        bind_exc (str_int protein) (\<lambda>protein_text.
        bind_exc (str_int carbs) (\<lambda>carbs_text.
        bind_exc (str_int fat) (\<lambda>fat_text.
          Inr (\<lparr>total_calories = total_calories t + calories,
                total_protein = total_protein t + protein,
                total_carbs = total_carbs t + carbs,
                total_fat = total_fat t + fat\<rparr>,
               display_data @
                 [\<lparr>Item = name,
                   Calories = calories_text @ '' kcal'',
                   Protein = protein_text @ ''g'',
                   Carbs = carbs_text @ ''g'',
                   Fat = fat_text @ ''g''\<rparr>])))))))))))"

fun breakdown_loop ::
  "pyval list \<Rightarrow> totals \<times> display_row list \<Rightarrow> py_exc + totals \<times> display_row list" where
  "breakdown_loop [] acc = Inr acc"
| "breakdown_loop (item # items) acc =
     bind_exc (breakdown_item item acc) (breakdown_loop items)"

text \<open>Lines 182 to 186: the text from the first opening to the last closing brace.\<close>

definition extract_json :: "string \<Rightarrow> py_exc + string" where
  "extract_json raw_text =
     (let json_start = str_find raw_text (CHR ''{'');
          json_end = str_rfind raw_text (CHR ''}'') + 1
      in if json_start = -1 \<or> json_end = 0
         then Inl (Exc ValueError
                (''No valid JSON object found in the AI'' @ [CHR 0x27] @ ''s response.''))
         else Inr (slice raw_text json_start json_end))"

text \<open>
  What the results page shows when no exception ends the run. \<open>Estimate\<close>: the warning
  of an empty breakdown or not, the table, and the four totals. \<open>ParseFailure\<close>: the
  error message and the raw text, and nothing drawn before them. \<open>TotalsFailure\<close>: the
  warning or not, the table and the totals that were drawn before the formatting of a
  total failed, then the error message and the raw text.
\<close>

datatype results_view =
    Estimate bool "display_row list" totals
  | ParseFailure string string
  | TotalsFailure bool "display_row list" "string list" string string

text \<open>
  Lines 227 to 230: the metrics are drawn in order, and each formats its total when it
  is drawn. The result is the texts drawn and the exception that stopped the drawing.
\<close>

fun draw_metrics :: "(int \<times> string) list \<Rightarrow> string list \<times> py_exc option" where
  "draw_metrics [] = ([], None)"
| "draw_metrics ((amount, suffix) # rest) =
     (case str_int amount of
        Inl e \<Rightarrow> ([], Some e)
      | Inr number \<Rightarrow>
          (case draw_metrics rest of (drawn, exc) \<Rightarrow> ((number @ suffix) # drawn, exc)))"

definition zero_totals :: totals where
  "zero_totals = \<lparr>total_calories = 0, total_protein = 0, total_carbs = 0, total_fat = 0\<rparr>"

text \<open>
  The body of the outer \<open>try\<close> block. An exception leaves it either before the table
  is drawn, or while the totals are drawn, with what was drawn until then.
\<close>

definition results_try ::
  "externals \<Rightarrow> string \<Rightarrow>
     py_exc \<times> (bool \<times> display_row list \<times> string list) option + results_view" where
  "results_try ext raw_text =
     (case bind_exc (extract_json raw_text) (\<lambda>json_str.
           bind_exc (json_loads ext json_str) (\<lambda>data.
           bind_exc (py_get data ''breakdown'' (PList [])) (\<lambda>breakdown_list.
           bind_exc (py_iter breakdown_list) (\<lambda>items.
           bind_exc (breakdown_loop items (zero_totals, [])) (\<lambda>(t, display_data).
             Inr (\<not> py_truthy breakdown_list, display_data, t)))))) of
        Inl e \<Rightarrow> Inl (e, None)
      | Inr (warned, display_data, t) \<Rightarrow>
          (case draw_metrics [(total_calories t, '' kcal''), (total_protein t, ''g''),
                              (total_carbs t, ''g''), (total_fat t, ''g'')] of
             (drawn, None) \<Rightarrow> Inr (Estimate warned display_data t)
           | (drawn, Some e) \<Rightarrow> Inl (e, Some (warned, display_data, drawn))))"

text \<open>
  The block with its handler \<open>except (ValueError, json.JSONDecodeError)\<close>; an exception
  of another class ends the run of the script.
\<close>

definition show_results :: "externals \<Rightarrow> string \<Rightarrow> py_exc + results_view" where
  "show_results ext raw_text =
     (case results_try ext raw_text of
        Inr view \<Rightarrow> Inr view
      | Inl (Exc c msg, drawn) \<Rightarrow>
          if is_ValueError c
          then Inr (let error = ''Could not parse the final analysis. Error: '' @ msg
                    in case drawn of
                         None \<Rightarrow> ParseFailure error raw_text
                       | Some (warned, display_data, metrics) \<Rightarrow>
                           TotalsFailure warned display_data metrics error raw_text)
          else Inl (Exc c msg))"

section \<open>Session state and the results stage\<close>

text \<open>
  \<open>st.session_state\<close> is a dict from key to value; the script stores text, image bytes,
  \<open>None\<close> and the message history in it.
\<close>

datatype sval = SNone | SStr string | SBytes string | SMessages "message list"

type_synonym session_state = "(string \<times> sval) list"

definition ss_keys :: "session_state \<Rightarrow> string list" where
  "ss_keys ss = remdups (map fst ss)"

definition ss_get :: "session_state \<Rightarrow> string \<Rightarrow> sval option" where
  "ss_get ss k = map_of ss k"

fun ss_set :: "string \<Rightarrow> sval \<Rightarrow> session_state \<Rightarrow> session_state" where
  "ss_set k v [] = [(k, v)]"
| "ss_set k v ((k', v') # ss) = (if k' = k then (k, v) # ss else (k', v') # ss_set k v ss)"

text \<open>\<open>del st.session_state[key]\<close>\<close>

definition ss_del :: "string \<Rightarrow> session_state \<Rightarrow> py_exc + session_state" where
  "ss_del k ss =
     (if k \<in> set (ss_keys ss) then Inr (filter (\<lambda>kv. fst kv \<noteq> k) ss)
      else Inl (Exc KeyError (quoted k)))"

text \<open>Lines 77 to 82: the three defaults a run of the script sets when they are missing.\<close>

definition init_session :: "session_state \<Rightarrow> session_state" where
  "init_session ss =
     (let ss1 = (if ''analysis_stage'' \<in> set (ss_keys ss) then ss
                 else ss_set ''analysis_stage'' (SStr ''upload'') ss);
          ss2 = (if ''uploaded_image_data'' \<in> set (ss_keys ss1) then ss1
                 else ss_set ''uploaded_image_data'' SNone ss1)
      in if ''messages'' \<in> set (ss_keys ss2) then ss2
         else ss_set ''messages'' (SMessages []) ss2)"

text \<open>
  \<open>raw_text = st.session_state.get("final_analysis", "")\<close>, as far as \<open>raw_text.find\<close>:
  a stored value that is not text has no such method, or refuses a text argument.
\<close>

definition final_analysis_text :: "session_state \<Rightarrow> py_exc + string" where
  "final_analysis_text ss =
     (case ss_get ss ''final_analysis'' of
        None \<Rightarrow> Inr ''''
      | Some (SStr t) \<Rightarrow> Inr t
      | Some SNone \<Rightarrow>
          Inl (Exc AttributeError
            (quoted ''NoneType'' @ '' object has no attribute '' @ quoted ''find''))
      | Some (SBytes b) \<Rightarrow>
          Inl (Exc TypeError
            (''argument should be integer or bytes-like object, not '' @ quoted ''str''))
      | Some (SMessages ms) \<Rightarrow>
          Inl (Exc AttributeError
            (quoted ''list'' @ '' object has no attribute '' @ quoted ''find'')))"

text \<open>The loop \<open>for key in list(st.session_state.keys()): del st.session_state[key]\<close>.\<close>

fun delete_keys :: "string list \<Rightarrow> session_state \<Rightarrow> py_exc + session_state" where
  "delete_keys [] ss = Inr ss"
| "delete_keys (key # keys) ss = bind_exc (ss_del key ss) (delete_keys keys)"

text \<open>
  Lines 178 to 240, one run of the script in the results stage: the page is rendered
  and, when the button Start Over was pressed, every key is deleted and a rerun is
  requested. The button comes after the rendering, so a run that an exception ends
  never reaches it. The result is the view, the session state and the rerun request.
\<close>

definition results_stage ::
  "externals \<Rightarrow> bool \<Rightarrow> session_state \<Rightarrow> py_exc + results_view \<times> session_state \<times> bool" where
  "results_stage ext start_over ss =
     bind_exc (final_analysis_text ss) (\<lambda>raw_text.
     bind_exc (show_results ext raw_text) (\<lambda>view.
       if start_over
       then bind_exc (delete_keys (ss_keys ss) ss) (\<lambda>ss'. Inr (view, ss', True))
       else Inr (view, ss, False)))"

section \<open>A decoder for closed examples\<close>

text \<open>
  \<open>json.loads\<close> is a parameter of the model, and the general theorems hold for every
  decoder. Examples on concrete text instantiate it with the decoder below, which reads
  a fragment of JSON: objects, arrays, strings without escape sequences, decimal
  integers, \<open>true\<close>, \<open>false\<close>, \<open>null\<close> and the constants \<open>NaN\<close>, \<open>Infinity\<close> and \<open>-Infinity\<close>
  that \<open>json.loads\<close> accepts. A value it returns is the value \<open>json.loads\<close> returns, as
  long as the nesting stays below the recursion limit of the interpreter.
\<close>

definition skip_ws :: "string \<Rightarrow> string" where
  "skip_ws s = dropWhile (\<lambda>c. c \<in> set [CHR 0x20, CHR 0x09, CHR 0x0A, CHR 0x0D]) s"

fun strip_prefix :: "string \<Rightarrow> string \<Rightarrow> string option" where
  "strip_prefix [] s = Some s"
| "strip_prefix (p # ps) [] = None"
| "strip_prefix (p # ps) (c # cs) = (if p = c then strip_prefix ps cs else None)"

text \<open>The characters of a string up to its closing quote.\<close>

fun string_body :: "string \<Rightarrow> (string \<times> string) option" where
  "string_body [] = None"
| "string_body (c # cs) =
     (if c = CHR 0x22 then Some ([], cs)
      else if c = CHR 0x5C \<or> of_char c < (32::nat) then None
      else map_option (\<lambda>(b, r). (c # b, r)) (string_body cs))"

definition digits_value :: "string \<Rightarrow> nat" where
  "digits_value ds = foldl (\<lambda>a d. a * 10 + digit_val d) 0 ds"

definition unsigned_number :: "string \<Rightarrow> (nat \<times> string) option" where
  "unsigned_number s =
     (let ds = takeWhile is_digit s; r = dropWhile is_digit s
      in if ds = [] \<or> (length ds > 1 \<and> hd ds = CHR ''0'') \<or> length ds > int_max_str_digits
            \<or> (r \<noteq> [] \<and> hd r \<in> set ''.eE'')
         then None else Some (digits_value ds, r))"

definition scalar :: "string \<Rightarrow> (pyval \<times> string) option" where
  "scalar s =
     (case strip_prefix ''true'' s of Some r \<Rightarrow> Some (PBool True, r) | None \<Rightarrow>
      case strip_prefix ''false'' s of Some r \<Rightarrow> Some (PBool False, r) | None \<Rightarrow>
      case strip_prefix ''null'' s of Some r \<Rightarrow> Some (PNone, r) | None \<Rightarrow>
      case strip_prefix ''NaN'' s of Some r \<Rightarrow> Some (PFloat NaN, r) | None \<Rightarrow>
      case strip_prefix ''Infinity'' s of Some r \<Rightarrow> Some (PFloat PosInf, r) | None \<Rightarrow>
      case strip_prefix ''-Infinity'' s of Some r \<Rightarrow> Some (PFloat NegInf, r) | None \<Rightarrow>
      case strip_prefix ''-'' s of
        Some r \<Rightarrow> map_option (\<lambda>(n, r'). (PInt (- int n), r')) (unsigned_number r)
      | None \<Rightarrow> map_option (\<lambda>(n, r'). (PInt (int n), r')) (unsigned_number s))"

text \<open>
  The decoder refuses text nested more deeply than \<open>nesting_limit\<close> with a
  \<open>RecursionError\<close>, as \<open>json.loads\<close> does at the recursion limit of the interpreter.
\<close>

definition nesting_limit :: nat where
  "nesting_limit = 1000"

definition expecting_value :: "py_exc + pyval \<times> string" where
  "expecting_value = Inl (Exc JSONDecodeError ''Expecting value'')"

definition too_deep :: "string \<Rightarrow> py_exc + pyval \<times> string" where
  "too_deep kind =
     Inl (Exc RecursionError
       (''maximum recursion depth exceeded while decoding a JSON '' @ kind
        @ '' from a unicode string''))"

text \<open>
  The first argument bounds the number of nested calls; a level of nesting takes two
  calls and at least one character, so twice the length of the text is enough. The
  second is the nesting that is still allowed.
\<close>

fun decode_value :: "nat \<Rightarrow> nat \<Rightarrow> string \<Rightarrow> py_exc + pyval \<times> string"
  and decode_elements :: "nat \<Rightarrow> nat \<Rightarrow> pyval list \<Rightarrow> string \<Rightarrow> py_exc + pyval \<times> string"
  and decode_members ::
    "nat \<Rightarrow> nat \<Rightarrow> (string \<times> pyval) list \<Rightarrow> string \<Rightarrow> py_exc + pyval \<times> string" where
  "decode_value 0 depth s = expecting_value"
| "decode_value (Suc n) depth s =
     (case skip_ws s of
        [] \<Rightarrow> expecting_value
      | c # r \<Rightarrow>
          if c = CHR ''{'' then
            (if depth = 0 then too_deep ''object''
             else case strip_prefix ''}'' (skip_ws r) of
                    Some r' \<Rightarrow> Inr (PDict [], r')
                  | None \<Rightarrow> decode_members n (depth - 1) [] r)
          else if c = CHR ''['' then
            (if depth = 0 then too_deep ''array''
             else case strip_prefix '']'' (skip_ws r) of
                    Some r' \<Rightarrow> Inr (PList [], r')
                  | None \<Rightarrow> decode_elements n (depth - 1) [] r)
          else if c = CHR 0x22 then
            (case string_body r of
               Some (b, r') \<Rightarrow> Inr (PStr b, r')
             | None \<Rightarrow> expecting_value)
          else (case scalar (c # r) of Some x \<Rightarrow> Inr x | None \<Rightarrow> expecting_value))"
| "decode_elements 0 depth acc s = expecting_value"
| "decode_elements (Suc n) depth acc s =
     (case decode_value n depth s of
        Inl e \<Rightarrow> Inl e
      | Inr (v, r) \<Rightarrow>
          (case skip_ws r of
             [] \<Rightarrow> expecting_value
           | c # r' \<Rightarrow>
               if c = CHR '','' then decode_elements n depth (acc @ [v]) r'
               else if c = CHR '']'' then Inr (PList (acc @ [v]), r')
               else expecting_value))"
| "decode_members 0 depth acc s = expecting_value"
| "decode_members (Suc n) depth acc s =
     (case strip_prefix [CHR 0x22] (skip_ws s) of
        None \<Rightarrow> expecting_value
      | Some r \<Rightarrow>
          (case string_body r of
             None \<Rightarrow> expecting_value
           | Some (k, r1) \<Rightarrow>
               (case strip_prefix '':'' (skip_ws r1) of
                  None \<Rightarrow> expecting_value
                | Some r2 \<Rightarrow>
                    (case decode_value n depth r2 of
                       Inl e \<Rightarrow> Inl e
                     | Inr (v, r3) \<Rightarrow>
                         (case skip_ws r3 of
                            [] \<Rightarrow> expecting_value
                          | c # r4 \<Rightarrow>
                              if c = CHR '','' then decode_members n depth (acc @ [(k, v)]) r4
                              else if c = CHR ''}'' then Inr (PDict (acc @ [(k, v)]), r4)
                              else expecting_value)))))"

definition decode_json :: "string \<Rightarrow> py_exc + pyval" where
  "decode_json s =
     (case decode_value (Suc (2 * length s)) nesting_limit s of
        Inr (v, r) \<Rightarrow>
          if skip_ws r = [] then Inr v else Inl (Exc JSONDecodeError ''Extra data'')
      | Inl e \<Rightarrow> Inl e)"

text \<open>
  The encoder of the examples writes the same fragment the way \<open>json.dumps\<close> does, with
  \<open>, \<close> and \<open>: \<close> as separators (a finite float as its integer part and \<open>.0\<close>, which is
  exact for an integral float; an integer in full, whatever its number of digits).
\<close>

definition decimal :: "int \<Rightarrow> string" where
  "decimal i = (if i < 0 then CHR ''-'' # str_nat (nat (- i)) else str_nat (nat i))"

fun join :: "string \<Rightarrow> string list \<Rightarrow> string" where
  "join sep [] = []"
| "join sep [x] = x"
| "join sep (x # y # ys) = x @ sep @ join sep (y # ys)"

fun encode_json :: "pyval \<Rightarrow> string" where
  "encode_json PNone = ''null''"
| "encode_json (PBool b) = (if b then ''true'' else ''false'')"
| "encode_json (PInt n) = decimal n"
| "encode_json (PFloat f) =
     (case f of
        NaN \<Rightarrow> ''NaN'' | PosInf \<Rightarrow> ''Infinity'' | NegInf \<Rightarrow> ''-Infinity''
      | Finite r \<Rightarrow> decimal (trunc r) @ ''.0'')"
| "encode_json (PStr s) = [CHR 0x22] @ s @ [CHR 0x22]"
| "encode_json (PList xs) = ''['' @ join '', '' (map encode_json xs) @ '']''"
| "encode_json (PDict kvs) =
     ''{'' @ join '', '' (map (\<lambda>(k, v). [CHR 0x22] @ k @ [CHR 0x22] @ '': '' @ encode_json v) kvs)
     @ ''}''"

text \<open>
  A search client that knows one query and fails on any other, and a model that asks
  for a search when told about a Whopper, asks for a tool that does not exist when told
  about the weather, and answers in plain text otherwise.
\<close>

definition whopper_result :: "(string \<times> pyval) list" where
  "whopper_result =
     [(''title'', PStr ''Whopper''),
      (''url'', PStr ''https://example.com/whopper''),
      (''content'', PStr ''A Whopper has 670 calories.''),
      (''score'', PInt 1)]"

definition example_search :: "pyval list \<Rightarrow> pyval \<Rightarrow> py_exc + pyval" where
  "example_search seen query =
     (if query = PStr ''Whopper calories''
      then Inr (PDict [(''query'', query), (''results'', PList [PDict whopper_result])])
      else Inl (Exc OtherException ''connection refused''))"

definition example_model :: "message list \<Rightarrow> part list" where
  "example_model h =
     (case rev h of
        [] \<Rightarrow> [Text ''Hello.'']
      | m # ms \<Rightarrow>
          (case parts m of
             [Text p] \<Rightarrow>
               if p = ''It was a Whopper.''
               then [FunctionCall ''perform_web_search'' [(''query'', PStr ''Whopper calories'')]]
               else if p = ''Check the weather.''
               then [FunctionCall ''get_weather'' [(''city'', PStr ''Oslo'')]]
               else [Text ''Noted.'']
           | [FunctionResponse name content] \<Rightarrow> [Text ''I found the Whopper.'']
           | other \<Rightarrow> [Text ''Noted.'']))"

text \<open>
  The two runs of the examples: the state after the user has mentioned the Whopper and
  the model has asked for a search, the state at the end of that run, and the state
  after the model has asked for the weather.
\<close>

definition whopper_call :: "part list" where
  "whopper_call = [FunctionCall ''perform_web_search'' [(''query'', PStr ''Whopper calories'')]]"

definition whopper_state :: chat_state where
  "whopper_state =
     \<lparr>history = [\<lparr>role = ''user'', parts = [Text ''It was a Whopper.'']\<rparr>,
                 \<lparr>role = ''model'', parts = whopper_call\<rparr>],
      searches = []\<rparr>"

definition whopper_end :: chat_state where
  "whopper_end =
     \<lparr>history = history whopper_state @
        [\<lparr>role = ''user'',
          parts = [FunctionResponse ''perform_web_search''
                     ''[{\"url\": \"https://example.com/whopper\", \"content\": \"A Whopper has 670 calories.\"}]'']\<rparr>,
         \<lparr>role = ''model'', parts = [Text ''I found the Whopper.'']\<rparr>],
      searches = [PStr ''Whopper calories'']\<rparr>"

definition weather_call :: "part list" where
  "weather_call = [FunctionCall ''get_weather'' [(''city'', PStr ''Oslo'')]]"

definition weather_state :: chat_state where
  "weather_state =
     \<lparr>history = [\<lparr>role = ''user'', parts = [Text ''Check the weather.'']\<rparr>,
                 \<lparr>role = ''model'', parts = weather_call\<rparr>],
      searches = []\<rparr>"

text \<open>
  A final answer of the model with prose around the object, and a session in the
  results stage that holds it, with the image and the history of the conversation.
\<close>

definition apple_text :: string where
  "apple_text =
     ''Here you go:'' @ [CHR 0x0A] @
     ''{\"breakdown\":[{\"item\":\"Apple\",\"calories\":95,\"protein_grams\":\"a lot\",\"carbs_grams\":25,\"fat_grams\":0}]}''
     @ [CHR 0x0A] @ ''Enjoy!''"

definition apple_session :: session_state where
  "apple_session =
     [(''analysis_stage'', SStr ''results''),
      (''uploaded_image_data'', SBytes ''PNG''),
      (''messages'', SMessages [\<lparr>role = ''user'', parts = [Text ''One apple.'']\<rparr>,
                                \<lparr>role = ''model'', parts = [Text ''Noted.'']\<rparr>]),
      (''final_analysis'', SStr apple_text)]"

definition apple_view :: results_view where
  "apple_view =
     Estimate False
       [\<lparr>Item = PStr ''Apple'', Calories = ''95 kcal'', Protein = ''0g'', Carbs = ''25g'',
         Fat = ''0g''\<rparr>]
       \<lparr>total_calories = 95, total_protein = 0, total_carbs = 25, total_fat = 0\<rparr>"

definition example_externals :: externals where
  "example_externals =
     \<lparr>json_loads = decode_json, json_dumps = encode_json,
      tavily_search = example_search, generate_content = example_model\<rparr>"

section \<open>Searching and slicing\<close>

lemma find_from_absent: "c \<notin> set s \<Longrightarrow> find_from c s i = -1"
  by (induction s arbitrary: i) auto

lemma find_from_present: "c \<notin> set xs \<Longrightarrow> find_from c (xs @ c # ys) i = i + int (length xs)"
  by (induction xs arbitrary: i) auto

lemma find_from_lower: "c \<in> set s \<Longrightarrow> i \<le> find_from c s i"
proof (induction s arbitrary: i)
  case Nil
  then show ?case by simp
next
  case (Cons x s)
  show ?case
  proof (cases "x = c")
    case True
    then show ?thesis by simp
  next
    case False
    with Cons.prems have "c \<in> set s" by simp
    from Cons.IH [OF this, of "i + 1"] False show ?thesis by simp
  qed
qed

lemma str_find_absent: "c \<notin> set s \<Longrightarrow> str_find s c = -1"
  by (simp add: str_find_def find_from_absent)

lemma str_rfind_absent: "c \<notin> set s \<Longrightarrow> str_rfind s c = -1"
  by (simp add: str_rfind_def find_from_absent)

lemma extract_json_absent:
  "CHR ''{'' \<notin> set raw \<or> CHR ''}'' \<notin> set raw \<Longrightarrow>
   extract_json raw =
     Inl (Exc ValueError (''No valid JSON object found in the AI'' @ [CHR 0x27] @ ''s response.''))"
  by (auto simp: extract_json_def Let_def str_find_absent str_rfind_absent)

lemma slice_middle:
  "slice (pre @ mid @ post) (int (length pre)) (int (length pre + length mid)) = mid"
  by (simp add: slice_def)

lemma extract_json_enclosed:
  assumes "CHR ''{'' \<notin> set pre" and "CHR ''}'' \<notin> set post"
  shows "extract_json (pre @ (CHR ''{'' # body @ [CHR ''}'']) @ post) = Inr (CHR ''{'' # body @ [CHR ''}''])"
proof -
  let ?raw = "pre @ (CHR ''{'' # body @ [CHR ''}'']) @ post"
  have start: "str_find ?raw (CHR ''{'') = int (length pre)"
    using find_from_present [OF assms(1), of "body @ [CHR ''}''] @ post" 0]
    by (simp add: str_find_def)
  have "rev ?raw = rev post @ CHR ''}'' # (rev body @ CHR ''{'' # rev pre)" by simp
  moreover have "CHR ''}'' \<notin> set (rev post)" using assms(2) by simp
  ultimately have "find_from (CHR ''}'') (rev ?raw) 0 = int (length post)"
    using find_from_present [of "CHR ''}''" "rev post" "rev body @ CHR ''{'' # rev pre" 0]
    by simp
  then have stop: "str_rfind ?raw (CHR ''}'') + 1 = int (length pre + length body + 2)"
    by (simp add: str_rfind_def Let_def)
  have "slice ?raw (int (length pre)) (int (length pre + length body + 2)) = CHR ''{'' # body @ [CHR ''}'']"
    using slice_middle [of pre "CHR ''{'' # body @ [CHR ''}'']" post] by simp
  with start stop show ?thesis
    unfolding extract_json_def Let_def by (simp del: append.simps)
qed

section \<open>Parse failures\<close>

lemma show_results_no_json:
  assumes "CHR ''{'' \<notin> set raw_text \<or> CHR ''}'' \<notin> set raw_text"
  shows "show_results ext raw_text =
     Inr (ParseFailure (''Could not parse the final analysis. Error: '' @
            ''No valid JSON object found in the AI'' @ [CHR 0x27] @ ''s response.'') raw_text)"
  using extract_json_absent [OF assms]
  by (simp add: show_results_def results_try_def bind_exc_def is_ValueError_def)

lemma show_results_decode_error:
  assumes "extract_json raw_text = Inr json_str"
    and "json_loads ext json_str = Inl (Exc c msg)" and "is_ValueError c"
  shows "show_results ext raw_text =
     Inr (ParseFailure (''Could not parse the final analysis. Error: '' @ msg) raw_text)"
  using assms
  by (simp add: show_results_def results_try_def bind_exc_def)


text \<open>
  When the raw text has no opening brace, or no closing brace, the results page shows
  the parse error with the message that no JSON object was found, and the raw text as
  it is; it shows no table and no totals. The same happens, with the message of the
  decoder, when the decoder refuses the text between the braces with a
  \<open>JSONDecodeError\<close>.
\<close>

lemma parse_failure_shows_raw_text:
  "(CHR ''{'' \<notin> set raw_text \<or> CHR ''}'' \<notin> set raw_text \<longrightarrow>
      show_results ext raw_text =
        Inr (ParseFailure (''Could not parse the final analysis. Error: '' @
               ''No valid JSON object found in the AI'' @ [CHR 0x27] @ ''s response.'') raw_text))
   \<and> (extract_json raw_text = Inr json_str \<and> json_loads ext json_str = Inl (Exc JSONDecodeError msg) \<longrightarrow>
      show_results ext raw_text =
        Inr (ParseFailure (''Could not parse the final analysis. Error: '' @ msg) raw_text))"
  using show_results_no_json show_results_decode_error [of raw_text json_str ext JSONDecodeError msg]
  by (simp add: is_ValueError_def)

lemma parse_failure_examples:
  "show_results example_externals ''I cannot estimate this meal.'' =
        Inr (ParseFailure (''Could not parse the final analysis. Error: '' @
               ''No valid JSON object found in the AI'' @ [CHR 0x27] @ ''s response.'')
             ''I cannot estimate this meal.'')
   \<and> show_results example_externals ''Result: {oops}'' =
        Inr (ParseFailure (''Could not parse the final analysis. Error: '' @ ''Expecting value'')
             ''Result: {oops}'')"
  by code_simp

subsection \<open>Text nested too deeply\<close>






section \<open>Extraction of the JSON text\<close>

text \<open>
  C2, as stated, fails: a brace in the prose before the object moves the start of the
  slice. Here the answer holds the well-formed object \<open>{"breakdown":[]}\<close>, which the
  decoder reads; the extractor takes the text from the brace of \<open>{large}\<close> on, which is
  not that object, and the page shows a parse failure.
\<close>

theorem braces_in_prose_counterexample:
  "json_loads example_externals ''{\"breakdown\":[]}'' = Inr (PDict [(''breakdown'', PList [])])
   \<and> extract_json (''Serving {large}: '' @ ''{\"breakdown\":[]}'' @ '' Enjoy!'') = Inr ''{large}: {\"breakdown\":[]}''
   \<and> (case show_results example_externals (''Serving {large}: '' @ ''{\"breakdown\":[]}'' @ '' Enjoy!'') of
         Inr (ParseFailure msg shown) \<Rightarrow> True | other \<Rightarrow> False)"
  by code_simp

lemma extract_json_whole:
  "extract_json (CHR ''{'' # body @ [CHR ''}'']) = Inr (CHR ''{'' # body @ [CHR ''}''])"
  using extract_json_enclosed [of "[]" "[]" body] by simp

text \<open>
  C2, amended. When the text before the object has no opening brace and the text after
  it has no closing brace, the extractor takes exactly the text of the object, from
  its opening to its closing brace, and the rest of the extraction runs as it runs on
  the object alone.
\<close>

theorem enclosed_object_recovered:
  assumes "CHR ''{'' \<notin> set pre" and "CHR ''}'' \<notin> set post"
    and "obj = CHR ''{'' # body @ [CHR ''}'']"
  shows "extract_json (pre @ obj @ post) = Inr obj
         \<and> results_try ext (pre @ obj @ post) = results_try ext obj"
proof -
  have "extract_json (pre @ obj @ post) = Inr obj"
    using extract_json_enclosed [OF assms(1,2)] assms(3) by simp
  moreover have "extract_json obj = Inr obj"
    using extract_json_whole assms(3) by simp
  ultimately show ?thesis
    by (simp add: results_try_def)
qed

theorem enclosed_object_recovered_witness:
  "CHR ''{'' \<notin> set (''```json'' @ [CHR 0x0A])
   \<and> CHR ''}'' \<notin> set ([CHR 0x0A] @ ''``` Enjoy your meal!'')
   \<and> ''{\"breakdown\":[]}'' = CHR ''{'' # ''\"breakdown\":[]'' @ [CHR ''}'']
   \<and> extract_json ((''```json'' @ [CHR 0x0A]) @ ''{\"breakdown\":[]}'' @ ([CHR 0x0A] @ ''``` Enjoy your meal!''))
       = Inr ''{\"breakdown\":[]}''
   \<and> results_try example_externals
         ((''```json'' @ [CHR 0x0A]) @ ''{\"breakdown\":[]}'' @ ([CHR 0x0A] @ ''``` Enjoy your meal!''))
       = results_try example_externals ''{\"breakdown\":[]}''"
proof -
  have h1: "CHR ''{'' \<notin> set (''```json'' @ [CHR 0x0A])" by simp
  have h2: "CHR ''}'' \<notin> set ([CHR 0x0A] @ ''``` Enjoy your meal!'')" by simp
  have h3: "''{\"breakdown\":[]}'' = CHR ''{'' # ''\"breakdown\":[]'' @ [CHR ''}'']" by simp
  from enclosed_object_recovered [OF h1 h2 h3, of example_externals] h1 h2 h3
  show ?thesis by blast
qed

section \<open>The tool-call loop\<close>

text \<open>
  C6. A model turn whose first fragment calls a tool that is not in the registry ends
  the loop at once: the loop returns the state it was given, so no query reached the
  search client and no message, in particular no tool result, was added to the
  history; the body of the loop makes no pass.
\<close>

theorem unregistered_tool_ends_loop:
  assumes "tool_name \<notin> dom available_tools"
  shows "tool_call_loop ext st (FunctionCall tool_name tool_args # rest) = Some (Inr st)
         \<and> loop_pass ext st (FunctionCall tool_name tool_args # rest) = None"
proof -
  from assms have "available_tools tool_name = None" by (simp add: domIff)
  then show ?thesis
    by (simp add: tool_call_loop.simps [of ext st "FunctionCall tool_name tool_args # rest"] loop_pass_def)
qed

theorem unregistered_tool_ends_loop_witness:
  "''get_weather'' \<notin> dom available_tools
   \<and> tool_call_loop example_externals \<lparr>history = [], searches = []\<rparr>
        [FunctionCall ''get_weather'' [(''city'', PStr ''Oslo'')]]
       = Some (Inr \<lparr>history = [], searches = []\<rparr>)
   \<and> loop_pass example_externals \<lparr>history = [], searches = []\<rparr>
        [FunctionCall ''get_weather'' [(''city'', PStr ''Oslo'')]] = None"
proof -
  have h: "''get_weather'' \<notin> dom available_tools"
    by (simp add: available_tools_def)
  from unregistered_tool_ends_loop [OF h] h show ?thesis by blast
qed

section \<open>The search tool adapter\<close>

lemma url_content_dict:
  assumes "dict_lookup kvs ''url'' = Some u" and "dict_lookup kvs ''content'' = Some c"
  shows "url_content (PDict kvs) = Inr (PDict [(''url'', u), (''content'', c)])"
  using assms by (simp add: url_content_def bind_exc_def)

lemma map_exc_url_content:
  assumes "\<forall>kvs \<in> set objs. dict_lookup kvs ''url'' \<noteq> None \<and> dict_lookup kvs ''content'' \<noteq> None"
  shows "map_exc url_content (map PDict objs) =
         Inr (map (\<lambda>kvs. PDict [(''url'', the (dict_lookup kvs ''url'')),
                                 (''content'', the (dict_lookup kvs ''content''))]) objs)"
  using assms
proof (induction objs)
  case Nil
  then show ?case by simp
next
  case (Cons kvs objs)
  from Cons.prems obtain u c where "dict_lookup kvs ''url'' = Some u" "dict_lookup kvs ''content'' = Some c"
    by auto
  then have "url_content (PDict kvs) = Inr (PDict [(''url'', the (dict_lookup kvs ''url'')),
                                 (''content'', the (dict_lookup kvs ''content''))])"
    using url_content_dict by simp
  moreover from Cons have "map_exc url_content (map PDict objs) =
         Inr (map (\<lambda>kvs. PDict [(''url'', the (dict_lookup kvs ''url'')),
                                 (''content'', the (dict_lookup kvs ''content''))]) objs)"
    by simp
  ultimately show ?case by (simp add: bind_exc_def)
qed

lemma perform_web_search_returns: "\<exists>s. perform_web_search ext seen query = Inr s"
  by (cases "search_try ext seen query") (simp_all add: perform_web_search_def)

lemma search_failure_is_text:
  assumes "tavily_search ext seen query = Inl e"
  shows "perform_web_search ext seen query = Inr (''Error performing search: '' @ exc_str e)"
  using assms by (simp add: perform_web_search_def search_try_def bind_exc_def)

lemma search_success_is_json:
  assumes "tavily_search ext seen query = Inr (PDict kvs)"
    and "dict_lookup kvs ''results'' = Some (PList (map PDict objs))"
    and "\<forall>obj \<in> set objs. dict_lookup obj ''url'' \<noteq> None \<and> dict_lookup obj ''content'' \<noteq> None"
  shows "perform_web_search ext seen query =
         Inr (json_dumps ext
               (PList (map (\<lambda>obj. PDict [(''url'', the (dict_lookup obj ''url'')),
                                          (''content'', the (dict_lookup obj ''content''))]) objs)))"
  using assms(1,2) map_exc_url_content [OF assms(3)]
  by (simp add: perform_web_search_def search_try_def url_content_list_def bind_exc_def)

text \<open>
  C5. The adapter returns text for every query and never raises. When the search
  client raises, or when its response does not have the expected shape, the text is
  the error message. When the response is a dict whose entry \<open>results\<close> is a list of dicts
  that have a \<open>url\<close> and a \<open>content\<close>, the text is the JSON encoding of the list of the
  \<open>{url, content}\<close> records, in the order of the results.
\<close>

theorem perform_web_search_never_raises:
  "(\<exists>s. perform_web_search ext seen query = Inr s)
   \<and> (tavily_search ext seen query = Inl e \<longrightarrow>
        perform_web_search ext seen query = Inr (''Error performing search: '' @ exc_str e))
   \<and> (search_try ext seen query = Inl e' \<longrightarrow>
        perform_web_search ext seen query = Inr (''Error performing search: '' @ exc_str e'))
   \<and> (tavily_search ext seen query = Inr (PDict kvs)
        \<and> dict_lookup kvs ''results'' = Some (PList (map PDict objs))
        \<and> (\<forall>obj \<in> set objs. dict_lookup obj ''url'' \<noteq> None \<and> dict_lookup obj ''content'' \<noteq> None) \<longrightarrow>
        perform_web_search ext seen query =
          Inr (json_dumps ext
                (PList (map (\<lambda>obj. PDict [(''url'', the (dict_lookup obj ''url'')),
                                           (''content'', the (dict_lookup obj ''content''))]) objs))))"
  using perform_web_search_returns search_failure_is_text search_success_is_json
  by (simp add: perform_web_search_def)

theorem perform_web_search_never_raises_witness:
  "tavily_search example_externals [] (PStr ''Big Mac calories'') = Inl (Exc OtherException ''connection refused'')
   \<and> perform_web_search example_externals [] (PStr ''Big Mac calories'') =
       Inr ''Error performing search: connection refused''
   \<and> search_try example_externals [] (PStr ''Big Mac calories'') = Inl (Exc OtherException ''connection refused'')
   \<and> tavily_search example_externals [] (PStr ''Whopper calories'') =
       Inr (PDict [(''query'', PStr ''Whopper calories''), (''results'', PList (map PDict [whopper_result]))])
   \<and> dict_lookup [(''query'', PStr ''Whopper calories''), (''results'', PList (map PDict [whopper_result]))] ''results''
       = Some (PList (map PDict [whopper_result]))
   \<and> dict_lookup whopper_result ''url'' = Some (PStr ''https://example.com/whopper'')
   \<and> dict_lookup whopper_result ''content'' = Some (PStr ''A Whopper has 670 calories.'')
   \<and> perform_web_search example_externals [] (PStr ''Whopper calories'') =
       Inr ''[{\"url\": \"https://example.com/whopper\", \"content\": \"A Whopper has 670 calories.\"}]''"
proof -
  let ?ext = example_externals
  have down: "tavily_search ?ext [] (PStr ''Big Mac calories'') = Inl (Exc OtherException ''connection refused'')"
    by code_simp
  have body: "search_try ?ext [] (PStr ''Big Mac calories'') = Inl (Exc OtherException ''connection refused'')"
    by code_simp
  have up: "tavily_search ?ext [] (PStr ''Whopper calories'') =
       Inr (PDict [(''query'', PStr ''Whopper calories''), (''results'', PList (map PDict [whopper_result]))])"
    by code_simp
  have key: "dict_lookup [(''query'', PStr ''Whopper calories''), (''results'', PList (map PDict [whopper_result]))] ''results''
       = Some (PList (map PDict [whopper_result]))"
    by code_simp
  have fields: "\<forall>obj \<in> set [whopper_result]. dict_lookup obj ''url'' \<noteq> None \<and> dict_lookup obj ''content'' \<noteq> None"
    by (simp add: whopper_result_def dict_lookup_def)
  have encoded: "json_dumps ?ext
                (PList (map (\<lambda>obj. PDict [(''url'', the (dict_lookup obj ''url'')),
                                           (''content'', the (dict_lookup obj ''content''))]) [whopper_result]))
              = ''[{\"url\": \"https://example.com/whopper\", \"content\": \"A Whopper has 670 calories.\"}]''"
    by (simp add: whopper_result_def dict_lookup_def example_externals_def)
  from perform_web_search_never_raises
         [of ?ext "[]" "PStr ''Big Mac calories''" "Exc OtherException ''connection refused''"
             "Exc OtherException ''connection refused''"]
    down body
  have failed: "perform_web_search ?ext [] (PStr ''Big Mac calories'') =
       Inr ''Error performing search: connection refused''"
    by simp
  from perform_web_search_never_raises
         [of ?ext "[]" "PStr ''Whopper calories''" _ _
             "[(''query'', PStr ''Whopper calories''), (''results'', PList (map PDict [whopper_result]))]"
             "[whopper_result]"]
    up key fields encoded
  have found: "perform_web_search ?ext [] (PStr ''Whopper calories'') =
       Inr ''[{\"url\": \"https://example.com/whopper\", \"content\": \"A Whopper has 670 calories.\"}]''"
    by simp
  have url: "dict_lookup whopper_result ''url'' = Some (PStr ''https://example.com/whopper'')"
    by (simp add: whopper_result_def dict_lookup_def)
  have content: "dict_lookup whopper_result ''content'' = Some (PStr ''A Whopper has 670 calories.'')"
    by (simp add: whopper_result_def dict_lookup_def)
  from down body up key url content failed found show ?thesis by blast
qed

section \<open>Termination of the loop and the history it builds\<close>

lemma registry_only_search:
  "available_tools name = Some f \<longleftrightarrow> name = ''perform_web_search'' \<and> f = call_perform_web_search"
  by (auto simp: available_tools_def)

lemma call_perform_web_search_seen:
  assumes "call_perform_web_search ext seen args = Inr (s, seen')"
  shows "\<exists>query. dict_lookup args ''query'' = Some query \<and> seen' = seen @ [query]"
  using assms
  by (auto simp: call_perform_web_search_def bind_exc_def split: list.splits option.splits sum.splits)

lemma loop_pass_Some:
  assumes "loop_pass ext st response = Some (st', response')"
  shows "\<exists>args rest query content.
           response = FunctionCall ''perform_web_search'' args # rest
           \<and> dict_lookup args ''query'' = Some query
           \<and> searches st' = searches st @ [query]
           \<and> history st' = history st @
                 [\<lparr>role = ''user'', parts = [FunctionResponse ''perform_web_search'' content]\<rparr>,
                  \<lparr>role = ''model'', parts = response'\<rparr>]"
proof -
  from assms obtain name args rest where r: "response = FunctionCall name args # rest"
    by (auto simp: loop_pass_def split: list.splits part.splits)
  with assms obtain f where f: "available_tools name = Some f"
    by (auto simp: loop_pass_def split: option.splits)
  then have name: "name = ''perform_web_search''" and fdef: "f = call_perform_web_search"
    by (simp_all add: registry_only_search)
  from assms r f obtain content seen where
    call: "f ext (searches st) args = Inr (content, seen)"
    by (auto simp: loop_pass_def split: sum.splits)
  with fdef obtain query where q: "dict_lookup args ''query'' = Some query" "seen = searches st @ [query]"
    using call_perform_web_search_seen by blast
  from assms r f call have
    "st' = \<lparr>history = snd (send_message ext (history st) [FunctionResponse name content]), searches = seen\<rparr>"
    "response' = fst (send_message ext (history st) [FunctionResponse name content])"
    by (auto simp: loop_pass_def split: prod.splits)
  then have "searches st' = seen"
    and "history st' = history st @
                 [\<lparr>role = ''user'', parts = [FunctionResponse name content]\<rparr>,
                  \<lparr>role = ''model'', parts = response'\<rparr>]"
    by (simp_all add: send_message_def Let_def)
  with r name q show ?thesis by auto
qed

lemma loop_continues:
  assumes "loop_pass ext st response = Some (st', response')"
  shows "tool_call_loop ext st response = tool_call_loop ext st' response'"
  using assms
  by (subst tool_call_loop.simps)
     (auto simp: loop_pass_def split: list.splits part.splits option.splits sum.splits prod.splits)

lemma loop_ends:
  assumes "loop_pass ext st response = None"
  shows "\<exists>y. tool_call_loop ext st response = Some y"
  using assms
  by (subst tool_call_loop.simps)
     (auto simp: loop_pass_def split: list.splits part.splits option.splits sum.splits prod.splits)

lemma loop_ends_normally:
  assumes "loop_pass ext st response = None" and "tool_call_loop ext st response = Some (Inr st')"
  shows "st' = st"
  using assms(2) assms(1)
  by (subst (asm) tool_call_loop.simps)
     (auto simp: loop_pass_def split: list.splits part.splits option.splits sum.splits prod.splits)

lemma run_reaches_end:
  assumes "run_to ext n st response = Some (st', response')"
    and "loop_pass ext st' response' = None"
  shows "\<exists>y. tool_call_loop ext st response = Some y"
  using assms
proof (induction n arbitrary: st response)
  case 0
  then show ?case using loop_ends by simp
next
  case (Suc n)
  from Suc.prems(1) obtain st1 r1 where
    pass: "loop_pass ext st response = Some (st1, r1)" and
    rest: "run_to ext n st1 r1 = Some (st', response')"
    by (auto split: option.splits)
  from Suc.IH [OF rest Suc.prems(2)] loop_continues [OF pass] show ?case by simp
qed

lemma end_is_reached:
  assumes "tool_call_loop ext st response = Some y"
  shows "\<exists>n st' response'. run_to ext n st response = Some (st', response')
            \<and> loop_pass ext st' response' = None"
  using assms
proof (induction rule: tool_call_loop.raw_induct [rotated 1, consumes 1, case_names pass])
  case (pass loop ext st response y)
  show ?case
  proof (cases "loop_pass ext st response")
    case None
    then have "run_to ext 0 st response = Some (st, response) \<and> loop_pass ext st response = None"
      by simp
    then show ?thesis by blast
  next
    case (Some next_turn)
    obtain st1 r1 where nt: "next_turn = (st1, r1)" by (cases next_turn)
    with Some pass.hyps have "loop ext st1 r1 = Some y"
      by (auto simp: loop_pass_def split: list.splits part.splits option.splits sum.splits prod.splits)
    from pass.IH [OF this] obtain n st' response' where
      "run_to ext n st1 r1 = Some (st', response')" "loop_pass ext st' response' = None"
      by blast
    with Some nt have "run_to ext (Suc n) st response = Some (st', response')" by simp
    with \<open>loop_pass ext st' response' = None\<close> show ?thesis by blast
  qed
qed

lemma call_perform_web_search_ok:
  "(\<exists>y. call_perform_web_search ext seen args = Inr y) \<longleftrightarrow>
     filter (\<lambda>k. k \<noteq> ''query'') (dict_keys args) = [] \<and> dict_lookup args ''query'' \<noteq> None"
proof (cases "filter (\<lambda>k. k \<noteq> ''query'') (dict_keys args)")
  case (Cons k ks)
  then show ?thesis by (simp add: call_perform_web_search_def)
next
  case Nil
  show ?thesis
  proof (cases "dict_lookup args ''query''")
    case None
    with Nil show ?thesis by (simp add: call_perform_web_search_def)
  next
    case (Some query)
    obtain s where "perform_web_search ext seen query = Inr s"
      by (cases "search_try ext seen query") (simp_all add: perform_web_search_def)
    with Nil Some show ?thesis by (simp add: call_perform_web_search_def bind_exc_def)
  qed
qed

lemma loop_pass_None_iff: "loop_pass ext st response = None \<longleftrightarrow> \<not> dispatched response"
proof (cases response)
  case Nil
  then show ?thesis by (simp add: loop_pass_def dispatched_def)
next
  case (Cons p rest)
  show ?thesis
  proof (cases p)
    case (FunctionCall name args)
    show ?thesis
    proof (cases "available_tools name")
      case None
      with Cons FunctionCall show ?thesis by (simp add: loop_pass_def dispatched_def)
    next
      case (Some f)
      then have f: "f = call_perform_web_search" by (simp add: registry_only_search)
      show ?thesis
      proof (cases "call_perform_web_search ext (searches st) args")
        case (Inl e)
        with call_perform_web_search_ok [of ext "searches st" args]
        have "\<not> (filter (\<lambda>k. k \<noteq> ''query'') (dict_keys args) = [] \<and> dict_lookup args ''query'' \<noteq> None)"
          by auto
        with Cons FunctionCall Some f Inl show ?thesis
          by (auto simp: loop_pass_def dispatched_def split: option.splits)
      next
        case (Inr y)
        with call_perform_web_search_ok [of ext "searches st" args]
        have "filter (\<lambda>k. k \<noteq> ''query'') (dict_keys args) = [] \<and> dict_lookup args ''query'' \<noteq> None"
          by auto
        with Cons FunctionCall Some f Inr show ?thesis
          by (auto simp: loop_pass_def dispatched_def split: option.splits prod.splits)
      qed
    qed
  qed (simp_all add: Cons loop_pass_def dispatched_def)
qed

lemma no_tool_call_not_dispatched: "\<not> has_tool_call response \<Longrightarrow> \<not> dispatched response"
  by (auto simp: has_tool_call_def dispatched_def split: list.splits part.splits)

lemma tool_pairs_snoc:
  "h \<noteq> [] \<Longrightarrow> tool_pairs (h @ [m]) = tool_pairs h + (if is_pair (last h) m then 1 else 0)"
  by (induction h rule: tool_pairs.induct) simp_all

lemma tool_pairs_pass:
  assumes "h \<noteq> []" and "last h = \<lparr>role = ''model'', parts = FunctionCall name args # rest\<rparr>"
  shows "tool_pairs (h @ [\<lparr>role = ''user'', parts = [FunctionResponse name content]\<rparr>,
                          \<lparr>role = ''model'', parts = reply\<rparr>]) = tool_pairs h + 1"
proof -
  let ?fr = "\<lparr>role = ''user'', parts = [FunctionResponse name content]\<rparr>"
  let ?rm = "\<lparr>role = ''model'', parts = reply\<rparr>"
  have a: "tool_pairs (h @ [?fr]) = tool_pairs h + 1"
    using assms tool_pairs_snoc [of h ?fr] by (simp add: is_pair_def)
  have "tool_pairs ((h @ [?fr]) @ [?rm]) = tool_pairs (h @ [?fr]) + (if is_pair (last (h @ [?fr])) ?rm then 1 else 0)"
    by (rule tool_pairs_snoc) simp
  moreover have "\<not> is_pair ?fr ?rm" by (simp add: is_pair_def)
  ultimately show ?thesis using a by simp
qed

lemma pairs_match_invocations:
  assumes "tool_call_loop ext st response = Some y"
  shows "\<forall>st'. y = Inr st' \<and> history st \<noteq> [] \<and> last (history st) = \<lparr>role = ''model'', parts = response\<rparr>
           \<longrightarrow> (\<exists>queries. searches st' = searches st @ queries
                  \<and> tool_pairs (history st') = tool_pairs (history st) + length queries
                  \<and> length (history st') = length (history st) + 2 * length queries)"
  using assms
proof (induction rule: tool_call_loop.raw_induct [rotated 1, consumes 1, case_names pass])
  case (pass loop ext st response y)
  show ?case
  proof (intro allI impI, elim conjE)
    fix st'
    assume y: "y = Inr st'" and ne: "history st \<noteq> []"
      and lst: "last (history st) = \<lparr>role = ''model'', parts = response\<rparr>"
    show "\<exists>queries. searches st' = searches st @ queries
                  \<and> tool_pairs (history st') = tool_pairs (history st) + length queries
                  \<and> length (history st') = length (history st) + 2 * length queries"
    proof (cases "loop_pass ext st response")
      case None
      with pass.hyps y have "st' = st"
        by (auto simp: loop_pass_def split: list.splits part.splits option.splits sum.splits prod.splits)
      then show ?thesis by simp
    next
      case (Some next_turn)
      obtain st1 r1 where nt: "next_turn = (st1, r1)" by (cases next_turn)
      with Some pass.hyps have run: "loop ext st1 r1 = Some y"
        by (auto simp: loop_pass_def split: list.splits part.splits option.splits sum.splits prod.splits)
      from Some nt loop_pass_Some [of ext st response st1 r1] obtain args rest query content where
        r: "response = FunctionCall ''perform_web_search'' args # rest" and
        s1: "searches st1 = searches st @ [query]" and
        h1: "history st1 = history st @
                 [\<lparr>role = ''user'', parts = [FunctionResponse ''perform_web_search'' content]\<rparr>,
                  \<lparr>role = ''model'', parts = r1\<rparr>]"
        by auto
      from h1 have "history st1 \<noteq> []" "last (history st1) = \<lparr>role = ''model'', parts = r1\<rparr>"
        by simp_all
      with pass.IH [OF run] y obtain qs where
        qs: "searches st' = searches st1 @ qs"
            "tool_pairs (history st') = tool_pairs (history st1) + length qs"
            "length (history st') = length (history st1) + 2 * length qs"
        by blast
      from ne lst r have "tool_pairs (history st1) = tool_pairs (history st) + 1"
        unfolding h1 by (intro tool_pairs_pass) simp_all
      with qs s1 h1 have "searches st' = searches st @ (query # qs)
           \<and> tool_pairs (history st') = tool_pairs (history st) + length (query # qs)
           \<and> length (history st') = length (history st) + 2 * length (query # qs)"
        by simp
      then show ?thesis by blast
    qed
  qed
qed

lemma loop_terminates_iff:
  "tool_call_loop ext st response \<noteq> None \<longleftrightarrow>
     (\<exists>n st' response'. run_to ext n st response = Some (st', response') \<and> \<not> dispatched response')"
proof
  assume "tool_call_loop ext st response \<noteq> None"
  then obtain y where "tool_call_loop ext st response = Some y" by blast
  from end_is_reached [OF this] show
    "\<exists>n st' response'. run_to ext n st response = Some (st', response') \<and> \<not> dispatched response'"
    by (simp add: loop_pass_None_iff)
next
  assume "\<exists>n st' response'. run_to ext n st response = Some (st', response') \<and> \<not> dispatched response'"
  then obtain n st' response' where
    "run_to ext n st response = Some (st', response')" "loop_pass ext st' response' = None"
    by (auto simp: loop_pass_None_iff)
  from run_reaches_end [OF this] show "tool_call_loop ext st response \<noteq> None" by auto
qed

lemma pairs_after_passes:
  assumes "run_to ext n st response = Some (st', response')"
    and "history st \<noteq> []" and "last (history st) = \<lparr>role = ''model'', parts = response\<rparr>"
  shows "\<exists>queries. length queries = n \<and> searches st' = searches st @ queries
           \<and> tool_pairs (history st') = tool_pairs (history st) + length queries
           \<and> length (history st') = length (history st) + 2 * length queries"
  using assms
proof (induction n arbitrary: st response)
  case 0
  then show ?case by simp
next
  case (Suc n)
  from Suc.prems(1) obtain st1 r1 where
    pass: "loop_pass ext st response = Some (st1, r1)" and
    rest: "run_to ext n st1 r1 = Some (st', response')"
    by (auto split: option.splits)
  from loop_pass_Some [OF pass] obtain args more query content where
    r: "response = FunctionCall ''perform_web_search'' args # more" and
    s1: "searches st1 = searches st @ [query]" and
    h1: "history st1 = history st @
                 [\<lparr>role = ''user'', parts = [FunctionResponse ''perform_web_search'' content]\<rparr>,
                  \<lparr>role = ''model'', parts = r1\<rparr>]"
    by auto
  from h1 have "history st1 \<noteq> []" "last (history st1) = \<lparr>role = ''model'', parts = r1\<rparr>"
    by simp_all
  from Suc.IH [OF rest this] obtain qs where
    qs: "length qs = n" "searches st' = searches st1 @ qs"
        "tool_pairs (history st') = tool_pairs (history st1) + length qs"
        "length (history st') = length (history st1) + 2 * length qs"
    by blast
  from Suc.prems(2,3) r have "tool_pairs (history st1) = tool_pairs (history st) + 1"
    unfolding h1 by (intro tool_pairs_pass) simp_all
  with qs s1 h1 have "length (query # qs) = Suc n \<and> searches st' = searches st @ (query # qs)
           \<and> tool_pairs (history st') = tool_pairs (history st) + length (query # qs)
           \<and> length (history st') = length (history st) + 2 * length (query # qs)"
    by simp
  then show ?case by blast
qed

lemma tool_pairs_prompt:
  "tool_pairs (h @ [\<lparr>role = ''user'', parts = [Text prompt]\<rparr>, \<lparr>role = ''model'', parts = reply\<rparr>])
     = tool_pairs h"
proof (cases "h = []")
  case True
  then show ?thesis by (simp add: is_pair_def)
next
  case False
  let ?u = "\<lparr>role = ''user'', parts = [Text prompt]\<rparr>"
  let ?m = "\<lparr>role = ''model'', parts = reply\<rparr>"
  have "\<not> is_pair (last h) ?u"
    by (auto simp: is_pair_def split: list.splits part.splits)
  with False have a: "tool_pairs (h @ [?u]) = tool_pairs h"
    using tool_pairs_snoc [of h ?u] by simp
  have "tool_pairs ((h @ [?u]) @ [?m]) = tool_pairs (h @ [?u]) + (if is_pair (last (h @ [?u])) ?m then 1 else 0)"
    by (rule tool_pairs_snoc) simp
  moreover have "\<not> is_pair ?u ?m" by (simp add: is_pair_def)
  ultimately show ?thesis using a by simp
qed

lemma pairs_after_prompt:
  assumes "send_message ext (history st) [Text prompt] = (first_turn, h)"
    and "run_to ext n (st\<lparr>history := h\<rparr>) first_turn = Some (st', response')"
  shows "\<exists>queries. length queries = n \<and> searches st' = searches st @ queries
           \<and> tool_pairs (history st') = tool_pairs (history st) + length queries"
proof -
  from assms(1) have h: "h = history st @ [\<lparr>role = ''user'', parts = [Text prompt]\<rparr>,
                                              \<lparr>role = ''model'', parts = first_turn\<rparr>]"
    by (auto simp: send_message_def Let_def)
  then have "history (st\<lparr>history := h\<rparr>) \<noteq> []"
    and "last (history (st\<lparr>history := h\<rparr>)) = \<lparr>role = ''model'', parts = first_turn\<rparr>"
    by simp_all
  from pairs_after_passes [OF assms(2) this] obtain queries where
    "length queries = n" "searches st' = searches st @ queries"
    "tool_pairs (history st') = tool_pairs h + length queries"
    by auto
  moreover have "tool_pairs h = tool_pairs (history st)"
    unfolding h by (rule tool_pairs_prompt)
  ultimately show ?thesis by auto
qed

lemma normal_end_is_reached:
  assumes "tool_call_loop ext st response = Some y"
  shows "\<forall>end_state. y = Inr end_state \<longrightarrow>
           (\<exists>n response'. run_to ext n st response = Some (end_state, response')
              \<and> loop_pass ext end_state response' = None)"
  using assms
proof (induction rule: tool_call_loop.raw_induct [rotated 1, consumes 1, case_names pass])
  case (pass loop ext st response y)
  show ?case
  proof (intro allI impI)
    fix end_state assume y: "y = Inr end_state"
    show "\<exists>n response'. run_to ext n st response = Some (end_state, response')
              \<and> loop_pass ext end_state response' = None"
    proof (cases "loop_pass ext st response")
      case None
      with pass.hyps y have "end_state = st"
        by (auto simp: loop_pass_def split: list.splits part.splits option.splits sum.splits prod.splits)
      with None have "run_to ext 0 st response = Some (end_state, response)
          \<and> loop_pass ext end_state response = None"
        by simp
      then show ?thesis by blast
    next
      case (Some next_turn)
      obtain st1 r1 where nt: "next_turn = (st1, r1)" by (cases next_turn)
      with Some pass.hyps have "loop ext st1 r1 = Some y"
        by (auto simp: loop_pass_def split: list.splits part.splits option.splits sum.splits prod.splits)
      from pass.IH [OF this] y obtain n response' where
        "run_to ext n st1 r1 = Some (end_state, response')" "loop_pass ext end_state response' = None"
        by blast
      with Some nt have "run_to ext (Suc n) st response = Some (end_state, response')
          \<and> loop_pass ext end_state response' = None"
        by simp
      then show ?thesis by blast
    qed
  qed
qed

text \<open>
  C1, amended. The loop ends (normally or by an exception of the call) exactly when
  the run reaches a model turn on which the body makes no pass: a turn whose first
  fragment is not a call of a registered tool with exactly the argument \<open>query\<close>. A turn
  without any tool call is such a turn. After any number of passes, however the run
  goes on or ends, the queries sent to the search client are as many as the passes and
  as many as the tool-call/tool-result pairs added to the history, which has grown by
  two messages for each of them; this holds for a loop entered with the model turn as
  the last message of the history, as the handler of the chat input enters it. A loop
  that ends normally returns the state after the passes of its run.
\<close>

theorem tool_call_loop_run:
  "(tool_call_loop ext st response \<noteq> None \<longleftrightarrow>
      (\<exists>n st' response'. run_to ext n st response = Some (st', response') \<and> \<not> dispatched response'))
   \<and> ((\<exists>n st' response'. run_to ext n st response = Some (st', response') \<and> \<not> has_tool_call response')
        \<longrightarrow> tool_call_loop ext st response \<noteq> None)
   \<and> (run_to ext n st response = Some (st', response')
        \<and> history st \<noteq> [] \<and> last (history st) = \<lparr>role = ''model'', parts = response\<rparr> \<longrightarrow>
        (\<exists>queries. length queries = n \<and> searches st' = searches st @ queries
           \<and> tool_pairs (history st') = tool_pairs (history st) + length queries
           \<and> length (history st') = length (history st) + 2 * length queries))
   \<and> (send_message ext (history st) [Text prompt] = (first_turn, h)
        \<and> run_to ext n (st\<lparr>history := h\<rparr>) first_turn = Some (st', response') \<longrightarrow>
        (\<exists>queries. length queries = n \<and> searches st' = searches st @ queries
           \<and> tool_pairs (history st') = tool_pairs (history st) + length queries))
   \<and> (tool_call_loop ext st response = Some (Inr end_state) \<longrightarrow>
        (\<exists>n response'. run_to ext n st response = Some (end_state, response')
           \<and> \<not> dispatched response'))
   \<and> (tool_call_loop ext st response = Some (Inr end_state)
        \<and> history st \<noteq> [] \<and> last (history st) = \<lparr>role = ''model'', parts = response\<rparr> \<longrightarrow>
        (\<exists>queries. searches end_state = searches st @ queries
           \<and> tool_pairs (history end_state) = tool_pairs (history st) + length queries
           \<and> length (history end_state) = length (history st) + 2 * length queries))"
proof (intro conjI)
  show "tool_call_loop ext st response \<noteq> None \<longleftrightarrow>
      (\<exists>n st' response'. run_to ext n st response = Some (st', response') \<and> \<not> dispatched response')"
    by (rule loop_terminates_iff)
  show "(\<exists>n st' response'. run_to ext n st response = Some (st', response') \<and> \<not> has_tool_call response')
        \<longrightarrow> tool_call_loop ext st response \<noteq> None"
    using loop_terminates_iff [of ext st response] no_tool_call_not_dispatched by blast
  show "run_to ext n st response = Some (st', response')
        \<and> history st \<noteq> [] \<and> last (history st) = \<lparr>role = ''model'', parts = response\<rparr> \<longrightarrow>
        (\<exists>queries. length queries = n \<and> searches st' = searches st @ queries
           \<and> tool_pairs (history st') = tool_pairs (history st) + length queries
           \<and> length (history st') = length (history st) + 2 * length queries)"
    using pairs_after_passes [of ext n st response st' response'] by blast
  show "send_message ext (history st) [Text prompt] = (first_turn, h)
        \<and> run_to ext n (st\<lparr>history := h\<rparr>) first_turn = Some (st', response') \<longrightarrow>
        (\<exists>queries. length queries = n \<and> searches st' = searches st @ queries
           \<and> tool_pairs (history st') = tool_pairs (history st) + length queries)"
    using pairs_after_prompt [of ext st prompt first_turn h n st' response'] by blast
  show "tool_call_loop ext st response = Some (Inr end_state) \<longrightarrow>
        (\<exists>n response'. run_to ext n st response = Some (end_state, response')
           \<and> \<not> dispatched response')"
    using normal_end_is_reached [of ext st response "Inr end_state"]
    by (simp add: loop_pass_None_iff)
  show "tool_call_loop ext st response = Some (Inr end_state)
        \<and> history st \<noteq> [] \<and> last (history st) = \<lparr>role = ''model'', parts = response\<rparr> \<longrightarrow>
        (\<exists>queries. searches end_state = searches st @ queries
           \<and> tool_pairs (history end_state) = tool_pairs (history st) + length queries
           \<and> length (history end_state) = length (history st) + 2 * length queries)"
    using pairs_match_invocations [of ext st response "Inr end_state"] by blast
qed

theorem tool_call_loop_run_witness:
  "run_to example_externals 1 whopper_state whopper_call = Some (whopper_end, [Text ''I found the Whopper.''])
   \<and> \<not> dispatched [Text ''I found the Whopper.'']
   \<and> \<not> has_tool_call [Text ''I found the Whopper.'']
   \<and> tool_call_loop example_externals whopper_state whopper_call = Some (Inr whopper_end)
   \<and> history whopper_state \<noteq> []
   \<and> last (history whopper_state) = \<lparr>role = ''model'', parts = whopper_call\<rparr>
   \<and> send_message example_externals (history \<lparr>history = [], searches = []\<rparr>) [Text ''It was a Whopper.'']
       = (whopper_call, history whopper_state)
   \<and> \<lparr>history = [], searches = []\<rparr>\<lparr>history := history whopper_state\<rparr> = whopper_state
   \<and> searches whopper_end = searches whopper_state @ [PStr ''Whopper calories'']
   \<and> tool_pairs (history whopper_state) = 0
   \<and> tool_pairs (history whopper_end) = 1
   \<and> length (history whopper_end) = length (history whopper_state) + 2"
proof -
  let ?E = example_externals
  let ?s0 = "\<lparr>history = [], searches = []\<rparr>"
  have run: "run_to ?E 1 whopper_state whopper_call = Some (whopper_end, [Text ''I found the Whopper.''])"
    by code_simp
  have stop: "\<not> dispatched [Text ''I found the Whopper.'']"
    by (simp add: dispatched_def)
  have plain: "\<not> has_tool_call [Text ''I found the Whopper.'']"
    by (simp add: has_tool_call_def)
  have ne: "history whopper_state \<noteq> []"
    by (simp add: whopper_state_def)
  have lst: "last (history whopper_state) = \<lparr>role = ''model'', parts = whopper_call\<rparr>"
    by (simp add: whopper_state_def)
  have sent: "send_message ?E (history ?s0) [Text ''It was a Whopper.''] = (whopper_call, history whopper_state)"
    by code_simp
  have entered: "?s0\<lparr>history := history whopper_state\<rparr> = whopper_state"
    by (simp add: whopper_state_def)
  have grown: "searches whopper_end = searches whopper_state @ [PStr ''Whopper calories'']"
    by (simp add: whopper_end_def whopper_state_def)
  have before: "tool_pairs (history whopper_state) = 0"
    by (simp add: whopper_state_def is_pair_def whopper_call_def)
  note at_whopper = tool_call_loop_run [of ?E whopper_state whopper_call 1 whopper_end
      "[Text ''I found the Whopper.'']" "[]" "[]" "[]" whopper_end]
  note ends_iff = at_whopper [THEN conjunct1]
  note counted = at_whopper [THEN conjunct2, THEN conjunct2, THEN conjunct1]
  note reached = at_whopper [THEN conjunct2, THEN conjunct2, THEN conjunct2, THEN conjunct2,
      THEN conjunct1]
  note counted_end = at_whopper [THEN conjunct2, THEN conjunct2, THEN conjunct2, THEN conjunct2,
      THEN conjunct2]
  note from_prompt = tool_call_loop_run [of ?E ?s0 "[]" 1 whopper_end "[Text ''I found the Whopper.'']"
      "''It was a Whopper.''" whopper_call "history whopper_state" ?s0,
      THEN conjunct2, THEN conjunct2, THEN conjunct2, THEN conjunct1]
  from ends_iff run stop have "tool_call_loop ?E whopper_state whopper_call \<noteq> None"
    by blast
  have ended: "tool_call_loop ?E whopper_state whopper_call = Some (Inr whopper_end)"
    by code_simp
  from counted run ne lst obtain queries :: "pyval list" where
    q: "length queries = 1" "tool_pairs (history whopper_end) = tool_pairs (history whopper_state) + length queries"
       "length (history whopper_end) = length (history whopper_state) + 2 * length queries"
    by blast
  from counted_end ended ne lst obtain queries' :: "pyval list" where
    "tool_pairs (history whopper_end) = tool_pairs (history whopper_state) + length queries'"
    by blast
  from reached ended obtain n response' where
    "run_to ?E n whopper_state whopper_call = Some (whopper_end, response')"
    by blast
  from from_prompt sent run entered
  obtain queries'' :: "pyval list" where "length queries'' = 1"
    "tool_pairs (history whopper_end) = tool_pairs (history ?s0) + length queries''"
    by auto
  from q before have "tool_pairs (history whopper_end) = 1"
    and "length (history whopper_end) = length (history whopper_state) + 2"
    by simp_all
  with run stop plain ended ne lst sent entered grown before show ?thesis by blast
qed

text \<open>
  C1, as stated, fails: the loop also ends on a call of an unregistered tool. In this
  run the loop ends although no model turn of the run is without a tool call.
\<close>

theorem unregistered_tool_run_counterexample:
  "tool_call_loop example_externals weather_state weather_call = Some (Inr weather_state)
   \<and> \<not> (\<exists>n st' response'. run_to example_externals n weather_state weather_call = Some (st', response')
           \<and> \<not> has_tool_call response')"
proof
  show "tool_call_loop example_externals weather_state weather_call = Some (Inr weather_state)"
    by code_simp
  have first_turn: "has_tool_call weather_call"
    by (simp add: has_tool_call_def weather_call_def)
  have no_pass: "loop_pass example_externals weather_state weather_call = None"
    by (simp add: loop_pass_def weather_call_def available_tools_def)
  show "\<not> (\<exists>n st' response'. run_to example_externals n weather_state weather_call = Some (st', response')
           \<and> \<not> has_tool_call response')"
  proof
    assume "\<exists>n st' response'. run_to example_externals n weather_state weather_call = Some (st', response')
           \<and> \<not> has_tool_call response'"
    then obtain n st' response' where
      r: "run_to example_externals n weather_state weather_call = Some (st', response')"
      and p: "\<not> has_tool_call response'"
      by blast
    show False
    proof (cases n)
      case 0
      with r have "response' = weather_call" by simp
      with p first_turn show False by simp
    qed (use r no_pass in simp)
  qed
qed

section \<open>Coercion of the macro fields\<close>

lemma macro_field_dict:
  "macro_field (PDict kvs) key =
     (case py_int (field_value kvs key) of
        Inr n \<Rightarrow> Inr n
      | Inl c \<Rightarrow> if c = OverflowError
                then Inl (Exc OverflowError ''cannot convert float infinity to integer'')
                else Inr 0)"
proof -
  have "c = OverflowError \<or> c = ValueError \<or> c = TypeError" if "py_int v = Inl c" for v c
    using that by (cases v rule: py_int.cases) (auto split: option.splits)
  then show ?thesis
    by (auto simp: macro_field_def bind_exc_def field_value_def is_ValueError_def split: sum.splits)
qed

lemma macro_field_not_dict:
  "(\<forall>kvs. item \<noteq> PDict kvs) \<Longrightarrow> \<exists>msg. macro_field item key = Inl (Exc AttributeError msg)"
  by (cases item) (simp_all add: macro_field_def bind_exc_def)

lemma ceiling_le_minus_one: "\<lceil>r::real\<rceil> \<le> -1 \<longleftrightarrow> r \<le> -1"
  using ceiling_le_iff [of r "-1"] by simp

lemma trunc_negative: "trunc r < 0 \<longleftrightarrow> r \<le> -1"
proof
  assume "trunc r < 0"
  then have "\<lceil>r\<rceil> < 0"
    by (auto simp: trunc_def split: if_splits)
  then have "\<lceil>r\<rceil> \<le> -1" by linarith
  then show "r \<le> -1" by (simp only: ceiling_le_minus_one)
next
  assume a: "r \<le> -1"
  then have "\<lceil>r\<rceil> \<le> -1" by (simp only: ceiling_le_minus_one)
  moreover from a have "r < 0" by simp
  ultimately show "trunc r < 0" using a by (simp add: trunc_def)
qed

lemma negative_value_source:
  assumes "macro_field item key = Inr n" and "n < 0"
  shows "\<exists>kvs. item = PDict kvs \<and>
           (dict_lookup kvs key = Some (PInt n)
            \<or> (\<exists>r. dict_lookup kvs key = Some (PFloat (Finite r)) \<and> r \<le> -1 \<and> n = trunc r)
            \<or> (\<exists>s. dict_lookup kvs key = Some (PStr s) \<and> str_to_int s = Some n))"
proof -
  from assms(1) obtain kvs where item: "item = PDict kvs"
    using macro_field_not_dict [of item key] by fastforce
  show ?thesis
  proof (cases "dict_lookup kvs key")
    case None
    with assms item show ?thesis
      by (simp add: macro_field_dict field_value_def)
  next
    case (Some v)
    with assms item have conv: "py_int v = Inr n"
      by (auto simp: macro_field_dict field_value_def split: sum.splits if_splits)
    show ?thesis
    proof (cases v)
      case (PFloat f)
      with conv obtain r where "f = Finite r" "n = trunc r"
        by (cases f) auto
      with assms(2) PFloat Some item show ?thesis
        by (auto simp: trunc_negative)
    next
      case (PStr s)
      with conv Some item show ?thesis by (auto split: option.splits)
    next
      case (PBool b)
      with conv assms(2) show ?thesis by (auto split: if_splits)
    qed (use conv Some item in auto)
  qed
qed

text \<open>
  C4, amended. Every derived macro value is an integer, the one \<open>int()\<close> gives for the
  field: an integer is kept as it is, a finite float is truncated towards zero, text
  that \<open>int()\<close> reads gives the integer it writes. So the value is negative only when the
  field holds a negative number (an integer below zero, or a finite float of at most
  \<open>-1\<close>) or text that \<open>int()\<close> reads as a negative integer, and then the derived value is
  that negative integer: nothing is clamped.
\<close>

theorem macro_value_sign:
  "(macro_field item key = Inr n \<and> n < 0 \<longrightarrow>
      (\<exists>kvs. item = PDict kvs \<and>
           (dict_lookup kvs key = Some (PInt n)
            \<or> (\<exists>r. dict_lookup kvs key = Some (PFloat (Finite r)) \<and> r \<le> -1 \<and> n = trunc r)
            \<or> (\<exists>s. dict_lookup kvs key = Some (PStr s) \<and> str_to_int s = Some n))))
   \<and> (dict_lookup kvs key = Some (PInt m) \<longrightarrow> macro_field (PDict kvs) key = Inr m)
   \<and> (dict_lookup kvs key = Some (PFloat (Finite r)) \<longrightarrow>
        macro_field (PDict kvs) key = Inr (trunc r) \<and> (trunc r < 0 \<longleftrightarrow> r \<le> -1))
   \<and> (dict_lookup kvs key = Some (PStr s) \<and> str_to_int s = Some m \<longrightarrow>
        macro_field (PDict kvs) key = Inr m)"
  using negative_value_source [of item key n]
  by (auto simp: macro_field_dict field_value_def trunc_negative)

theorem macro_value_sign_witness:
  "macro_field (PDict [(''item'', PStr ''Fasting''), (''calories'', PInt (- 120)),
                       (''protein_grams'', PFloat (Finite (- 5 / 2))), (''carbs_grams'', PStr ''-7'')])
     ''calories'' = Inr (- 120)
   \<and> (- 120 :: int) < 0
   \<and> dict_lookup [(''item'', PStr ''Fasting''), (''calories'', PInt (- 120)),
                    (''protein_grams'', PFloat (Finite (- 5 / 2))), (''carbs_grams'', PStr ''-7'')]
         ''calories'' = Some (PInt (- 120))
   \<and> dict_lookup [(''item'', PStr ''Fasting''), (''calories'', PInt (- 120)),
                    (''protein_grams'', PFloat (Finite (- 5 / 2))), (''carbs_grams'', PStr ''-7'')]
         ''protein_grams'' = Some (PFloat (Finite (- 5 / 2)))
   \<and> macro_field (PDict [(''item'', PStr ''Fasting''), (''calories'', PInt (- 120)),
                       (''protein_grams'', PFloat (Finite (- 5 / 2))), (''carbs_grams'', PStr ''-7'')])
         ''protein_grams'' = Inr (- 2)
   \<and> dict_lookup [(''item'', PStr ''Fasting''), (''calories'', PInt (- 120)),
                    (''protein_grams'', PFloat (Finite (- 5 / 2))), (''carbs_grams'', PStr ''-7'')]
         ''carbs_grams'' = Some (PStr ''-7'')
   \<and> str_to_int ''-7'' = Some (- 7)
   \<and> macro_field (PDict [(''item'', PStr ''Fasting''), (''calories'', PInt (- 120)),
                       (''protein_grams'', PFloat (Finite (- 5 / 2))), (''carbs_grams'', PStr ''-7'')])
         ''carbs_grams'' = Inr (- 7)"
proof -
  let ?kvs = "[(''item'', PStr ''Fasting''), (''calories'', PInt (- 120)),
               (''protein_grams'', PFloat (Finite (- 5 / 2))), (''carbs_grams'', PStr ''-7'')]"
  have k1: "dict_lookup ?kvs ''calories'' = Some (PInt (- 120))"
    and k2: "dict_lookup ?kvs ''protein_grams'' = Some (PFloat (Finite (- 5 / 2)))"
    and k3: "dict_lookup ?kvs ''carbs_grams'' = Some (PStr ''-7'')"
    by (simp_all add: dict_lookup_def)
  have neg: "(- 120 :: int) < 0" by simp
  have lit: "str_to_int ''-7'' = Some (- 7)" by code_simp
  have half: "trunc (- 5 / 2) = - 2" by (simp add: trunc_def)
  from macro_value_sign [of "PDict ?kvs" "''calories''" "- 120" ?kvs "- 120"] k1
  have c1: "macro_field (PDict ?kvs) ''calories'' = Inr (- 120)" by blast
  from macro_value_sign [of "PDict ?kvs" "''calories''" "- 120" ?kvs "- 120"] c1 neg
  have "\<exists>kvs. PDict ?kvs = PDict kvs" by blast
  from macro_value_sign [of "PDict ?kvs" "''protein_grams''" 0 ?kvs 0 "- 5 / 2"] k2 half
  have c2: "macro_field (PDict ?kvs) ''protein_grams'' = Inr (- 2)" by simp
  from macro_value_sign [of "PDict ?kvs" "''carbs_grams''" 0 ?kvs "- 7" 0 "''-7''"] k3 lit
  have c3: "macro_field (PDict ?kvs) ''carbs_grams'' = Inr (- 7)" by blast
  from c1 neg k1 k2 c2 k3 lit c3 show ?thesis by blast
qed

text \<open>
  C4, as stated, fails: a negative number in the answer is shown and summed as it is.
\<close>

theorem negative_calories_counterexample:
  "show_results example_externals
     ''{\"breakdown\":[{\"item\":\"Fasting\",\"calories\":-120,\"protein_grams\":0,\"carbs_grams\":0,\"fat_grams\":0}]}''
   = Inr (Estimate False
           [\<lparr>Item = PStr ''Fasting'', Calories = ''-120 kcal'', Protein = ''0g'', Carbs = ''0g'', Fat = ''0g''\<rparr>]
           \<lparr>total_calories = - 120, total_protein = 0, total_carbs = 0, total_fat = 0\<rparr>)
   \<and> macro_field (PDict [(''item'', PStr ''Fasting''), (''calories'', PInt (- 120))]) ''calories'' = Inr (- 120)
   \<and> \<not> (0::int) \<le> - 120"
  by code_simp

lemma digit_not_space: "is_digit c \<Longrightarrow> \<not> is_space c"
  by (auto simp: is_digit_def is_space_def)

lemma more_digits_all:
  "list_all is_digit cs \<Longrightarrow>
   more_digits acc cs = Some (foldl (\<lambda>a d. a * 10 + digit_val d) acc cs)"
  by (induction cs arbitrary: acc) simp_all

lemma strip_digits:
  assumes "list_all is_digit ds"
  shows "strip ds = ds"
proof (cases ds)
  case Nil
  then show ?thesis by (simp add: strip_def)
next
  case (Cons d ds')
  with assms have "\<not> is_space (hd ds)" and "\<not> is_space (last ds)" and ne: "ds \<noteq> []"
    by (auto simp: list_all_iff digit_not_space)
  then have "dropWhile is_space ds = ds" and "dropWhile is_space (rev ds) = rev ds"
    by (simp_all add: dropWhile_eq_self_iff hd_rev)
  then show ?thesis by (simp add: strip_def)
qed

lemma digits_are_read:
  assumes "ds \<noteq> []" and "list_all is_digit ds" and "length ds \<le> int_max_str_digits"
  shows "str_to_int ds = Some (int (digits_value ds))"
proof -
  from assms(1) obtain d ds' where ds: "ds = d # ds'" by (cases ds) auto
  with assms(2) have d: "is_digit d" and rest: "list_all is_digit ds'" by simp_all
  from d have sign: "d \<noteq> CHR ''-''" "d \<noteq> CHR ''+''"
    by (auto simp: is_digit_def)
  from assms(2) have "filter is_digit ds = ds"
    by (simp add: list_all_iff filter_id_conv)
  with assms(3) have "\<not> length (filter is_digit ds) > int_max_str_digits" by simp
  with ds d more_digits_all [OF rest, of "digit_val d"]
  have "unsigned_literal ds = Some (digits_value ds)"
    by (simp add: unsigned_literal_def digits_value_def)
  with ds sign strip_digits [OF assms(2)] show ?thesis
    by (simp add: str_to_int_def)
qed


lemma integer_text_field:
  assumes "dict_lookup kvs key = Some (PStr s)" and "str_to_int s = Some n"
  shows "macro_field (PDict kvs) key = Inr n"
  using assms by (simp add: macro_field_dict field_value_def)

lemma rice_example:
  "show_results example_externals
     ''{\"breakdown\":[{\"item\":\"Rice\",\"calories\":\"205\",\"protein_grams\":\" 4 \",\"carbs_grams\":\"+45\",\"fat_grams\":\"1_0\"}]}''
   = Inr (Estimate False
           [\<lparr>Item = PStr ''Rice'', Calories = ''205 kcal'', Protein = ''4g'', Carbs = ''45g'',
             Fat = ''10g''\<rparr>]
           \<lparr>total_calories = 205, total_protein = 4, total_carbs = 45, total_fat = 10\<rparr>)"
  by code_simp

text \<open>
  C10 (the code departs from it). Text that \<open>int()\<close> reads is converted to its integer,
  not to \<open>0\<close>, but the integer reaches the totals only if no conversion of the run
  raises an exception that the handlers miss. In this answer \<open>calories\<close> is the text
  \<open>25\<close> and is converted to 25; \<open>int()\<close> of the infinite \<open>fat_grams\<close> then raises
  \<open>OverflowError\<close>, and the run of the script ends with no row and no totals. It is the
  defect shown for C3.
\<close>

theorem integer_text_lost_with_infinite_field:
  "macro_field (PDict [(''item'', PStr ''Rice''), (''calories'', PStr ''25''),
                       (''fat_grams'', PFloat PosInf)]) ''calories'' = Inr 25
   \<and> json_loads example_externals
         ''{\"breakdown\":[{\"item\":\"Rice\",\"calories\":\"25\",\"fat_grams\":Infinity}]}''
       = Inr (PDict [(''breakdown'',
                PList [PDict [(''item'', PStr ''Rice''), (''calories'', PStr ''25''),
                              (''fat_grams'', PFloat PosInf)]])])
   \<and> show_results example_externals
         ''{\"breakdown\":[{\"item\":\"Rice\",\"calories\":\"25\",\"fat_grams\":Infinity}]}''
       = Inl (Exc OverflowError ''cannot convert float infinity to integer'')"
  by code_simp

section \<open>Fields that cannot be converted\<close>

text \<open>
  A field that is missing, \<open>None\<close>, a list, a dict, NaN, or text that \<open>int()\<close> does not
  read, is converted to \<open>0\<close>; the answer of the example gives the totals 95, 0, 25 and 0
  and one row for the apple.
\<close>

lemma unconvertible_field_is_zero:
  assumes "dict_lookup kvs key = None \<or> dict_lookup kvs key = Some PNone
           \<or> (\<exists>xs. dict_lookup kvs key = Some (PList xs))
           \<or> (\<exists>d. dict_lookup kvs key = Some (PDict d))
           \<or> dict_lookup kvs key = Some (PFloat NaN)
           \<or> (\<exists>s. dict_lookup kvs key = Some (PStr s) \<and> str_to_int s = None)"
  shows "macro_field (PDict kvs) key = Inr 0"
  using assms by (auto simp: macro_field_dict field_value_def)

lemma apple_scenario: "show_results example_externals apple_text = Inr apple_view"
  by code_simp

text \<open>
  C3 (the code departs from it). The handlers of the four conversions catch
  \<open>ValueError\<close> and \<open>TypeError\<close>; \<open>int()\<close> of an infinite float raises \<open>OverflowError\<close>,
  which neither they nor the outer handler catch. In this answer the field \<open>calories\<close>
  of the item is not numeric and counts as \<open>0\<close>, but the item never reaches the totals:
  the run of the script ends with the exception.
\<close>

theorem infinite_field_aborts_extraction:
  "macro_field (PDict [(''item'', PStr ''Apple''), (''calories'', PStr ''a lot''),
                       (''fat_grams'', PFloat PosInf)]) ''calories'' = Inr 0
   \<and> json_loads example_externals
         ''{\"breakdown\":[{\"item\":\"Apple\",\"calories\":\"a lot\",\"fat_grams\":Infinity}]}''
       = Inr (PDict [(''breakdown'',
                PList [PDict [(''item'', PStr ''Apple''), (''calories'', PStr ''a lot''),
                              (''fat_grams'', PFloat PosInf)]])])
   \<and> show_results example_externals
         ''{\"breakdown\":[{\"item\":\"Apple\",\"calories\":\"a lot\",\"fat_grams\":Infinity}]}''
       = Inl (Exc OverflowError ''cannot convert float infinity to integer'')"
  by code_simp

section \<open>The results stage and the reset\<close>

lemma results_stage_render:
  "results_stage ext False ss =
     (case bind_exc (final_analysis_text ss) (show_results ext) of
        Inl e \<Rightarrow> Inl e | Inr view \<Rightarrow> Inr (view, ss, False))"
  by (auto simp: results_stage_def bind_exc_def split: sum.splits)

text \<open>
  C8. Rendering the results leaves the session state as it is, so rendering again
  gives the same view, with the same totals; and the view depends on the session only
  through the stored raw text: two sessions with the same text give the same view.
\<close>

theorem results_render_twice:
  "(results_stage ext False ss = Inr (view, ss', rerun) \<longrightarrow>
      ss' = ss \<and> \<not> rerun \<and> results_stage ext False ss' = Inr (view, ss', rerun))
   \<and> (ss_get ss ''final_analysis'' = ss_get other ''final_analysis'' \<longrightarrow>
        map_sum id fst (results_stage ext False ss) = map_sum id fst (results_stage ext False other))"
proof (intro conjI impI)
  assume a: "results_stage ext False ss = Inr (view, ss', rerun)"
  then show "ss' = ss" and "\<not> rerun"
    by (auto simp: results_stage_render split: sum.splits)
  with a show "results_stage ext False ss' = Inr (view, ss', rerun)" by simp
next
  assume "ss_get ss ''final_analysis'' = ss_get other ''final_analysis''"
  then have "final_analysis_text ss = final_analysis_text other"
    by (simp add: final_analysis_text_def)
  then show "map_sum id fst (results_stage ext False ss) = map_sum id fst (results_stage ext False other)"
    by (simp add: results_stage_render split: sum.splits)
qed

theorem results_render_twice_witness:
  "results_stage example_externals False apple_session = Inr (apple_view, apple_session, False)
   \<and> ss_get apple_session ''final_analysis'' = ss_get [(''final_analysis'', SStr apple_text)] ''final_analysis''
   \<and> results_stage example_externals False [(''final_analysis'', SStr apple_text)] =
       Inr (apple_view, [(''final_analysis'', SStr apple_text)], False)"
proof -
  let ?other = "[(''final_analysis'', SStr apple_text)]"
  have first: "results_stage example_externals False apple_session = Inr (apple_view, apple_session, False)"
    by code_simp
  have same: "ss_get apple_session ''final_analysis'' = ss_get ?other ''final_analysis''"
    by (simp add: apple_session_def ss_get_def)
  from results_render_twice [of example_externals apple_session apple_view apple_session False] first
  have again: "results_stage example_externals False apple_session = Inr (apple_view, apple_session, False)"
    by blast
  from results_render_twice [of example_externals apple_session _ _ _ ?other] same
  have "map_sum id fst (results_stage example_externals False ?other) = Inr apple_view"
    using again by simp
  then have "results_stage example_externals False ?other = Inr (apple_view, ?other, False)"
    by (auto simp: results_stage_render split: sum.splits)
  with first same show ?thesis by blast
qed

lemma delete_keys_filter:
  assumes "distinct keys" and "set keys \<subseteq> fst ` set ss"
  shows "delete_keys keys ss = Inr (filter (\<lambda>kv. fst kv \<notin> set keys) ss)"
  using assms
proof (induction keys arbitrary: ss)
  case Nil
  then show ?case by simp
next
  case (Cons key keys)
  let ?ss = "filter (\<lambda>kv. fst kv \<noteq> key) ss"
  from Cons.prems have del: "ss_del key ss = Inr ?ss"
    by (simp add: ss_del_def ss_keys_def)
  from Cons.prems have d: "distinct keys" and notin: "key \<notin> set keys" by simp_all
  have "set keys \<subseteq> fst ` set ?ss"
  proof
    fix k assume k: "k \<in> set keys"
    with Cons.prems obtain v where "(k, v) \<in> set ss" by auto
    moreover from k notin have "k \<noteq> key" by auto
    ultimately have "(k, v) \<in> set ?ss" by simp
    then show "k \<in> fst ` set ?ss" by force
  qed
  note d this
  from Cons.IH [OF this] del show ?case
    by (simp add: bind_exc_def conj_commute)
qed

lemma delete_all_keys: "delete_keys (ss_keys ss) ss = Inr []"
proof -
  have "delete_keys (ss_keys ss) ss = Inr (filter (\<lambda>kv. fst kv \<notin> set (ss_keys ss)) ss)"
    by (rule delete_keys_filter) (simp_all add: ss_keys_def)
  moreover have "filter (\<lambda>kv. fst kv \<notin> set (ss_keys ss)) ss = []"
    by (auto simp: ss_keys_def filter_empty_conv)
  ultimately show ?thesis by simp
qed

lemma fresh_session:
  "init_session [] =
     [(''analysis_stage'', SStr ''upload''), (''uploaded_image_data'', SNone),
      (''messages'', SMessages [])]"
  by (simp add: init_session_def ss_keys_def)

text \<open>
  C9. Deleting every key empties any session state. Whenever the results page is
  rendered, so that the button is there, pressing Start Over leaves the empty session
  and requests a rerun; the rerun sets the three defaults of a fresh start: stage
  \<open>upload\<close>, no image, an empty history, and nothing else.
\<close>

theorem start_over_restores_fresh_session:
  "delete_keys (ss_keys ss) ss = Inr []
   \<and> (results_stage ext False ss = Inr (view, ss, False) \<longrightarrow>
        results_stage ext True ss = Inr (view, [], True))
   \<and> (results_stage ext True ss = Inr (view, ss', rerun) \<longrightarrow>
        ss' = [] \<and> rerun \<and> init_session ss' = init_session []
        \<and> ss_get (init_session ss') ''analysis_stage'' = Some (SStr ''upload'')
        \<and> ss_get (init_session ss') ''uploaded_image_data'' = Some SNone
        \<and> ss_get (init_session ss') ''messages'' = Some (SMessages [])
        \<and> ss_keys (init_session ss') = [''analysis_stage'', ''uploaded_image_data'', ''messages''])"
proof (intro conjI impI)
  show "delete_keys (ss_keys ss) ss = Inr []" by (rule delete_all_keys)
next
  assume "results_stage ext False ss = Inr (view, ss, False)"
  then show "results_stage ext True ss = Inr (view, [], True)"
    by (auto simp: results_stage_def bind_exc_def delete_all_keys split: sum.splits)
next
  assume a: "results_stage ext True ss = Inr (view, ss', rerun)"
  then show e: "ss' = []" and "rerun"
    by (auto simp: results_stage_def bind_exc_def delete_all_keys split: sum.splits)
  then show "init_session ss' = init_session []" by simp
  from e show "ss_get (init_session ss') ''analysis_stage'' = Some (SStr ''upload'')"
    and "ss_get (init_session ss') ''uploaded_image_data'' = Some SNone"
    and "ss_get (init_session ss') ''messages'' = Some (SMessages [])"
    and "ss_keys (init_session ss') = [''analysis_stage'', ''uploaded_image_data'', ''messages'']"
    by (simp_all add: fresh_session ss_get_def ss_keys_def)
qed

theorem start_over_restores_fresh_session_witness:
  "results_stage example_externals False apple_session = Inr (apple_view, apple_session, False)
   \<and> results_stage example_externals True apple_session = Inr (apple_view, [], True)
   \<and> ss_get apple_session ''uploaded_image_data'' = Some (SBytes ''PNG'')
   \<and> ss_get (init_session []) ''uploaded_image_data'' = Some SNone
   \<and> ss_get (init_session []) ''messages'' = Some (SMessages [])
   \<and> ss_get (init_session []) ''final_analysis'' = None"
proof -
  have shown: "results_stage example_externals False apple_session = Inr (apple_view, apple_session, False)"
    by code_simp
  from start_over_restores_fresh_session [of apple_session example_externals apple_view] shown
  have reset: "results_stage example_externals True apple_session = Inr (apple_view, [], True)"
    by blast
  from start_over_restores_fresh_session [of apple_session example_externals apple_view "[]" True] reset
  have fresh: "ss_get (init_session []) ''uploaded_image_data'' = Some SNone"
    "ss_get (init_session []) ''messages'' = Some (SMessages [])"
    by blast+
  have before: "ss_get apple_session ''uploaded_image_data'' = Some (SBytes ''PNG'')"
    by (simp add: apple_session_def ss_get_def)
  have gone: "ss_get (init_session []) ''final_analysis'' = None"
    by (simp add: fresh_session ss_get_def)
  from shown reset fresh before gone show ?thesis by blast
qed

end
